theory Spec2Isabelle
  imports Main "HOL-Library.Word" "HOL-Library.AList"
begin

section \<open>Buffers, strings and the platform functions the loaders call\<close>

text \<open>
  An \<^verbatim>\<open>ArrayBuffer\<close>, a \<^verbatim>\<open>Uint8Array\<close> and a Node \<^verbatim>\<open>Buffer\<close> are lists of
  bytes. A JavaScript string is a list of UTF-16 code units. Offsets and sizes are
  JavaScript numbers holding non-negative integers far below \<open>2^53\<close>, so they are
  \<open>nat\<close> and sums such as \<^verbatim>\<open>dataOffset + size\<close> do not wrap.
\<close>

type_synonym byte = "8 word"
type_synonym bytes = "byte list"
type_synonym jsstring = "nat list"

datatype js_error = RangeError | TypeError | SyntaxError | Error string

definition js :: "string \<Rightarrow> jsstring" where
  "js s = map of_char s"

text \<open>Indexing a typed array outside its range reads \<^verbatim>\<open>undefined\<close> (here \<open>None\<close>).\<close>

definition u8_at :: "bytes \<Rightarrow> nat \<Rightarrow> byte option" where
  "u8_at a i = (if i < length a then Some (a ! i) else None)"

text \<open>
  \<^verbatim>\<open>slice(begin, end)\<close> of an ArrayBuffer, a typed array or a Buffer, for non-negative
  arguments: both ends are clamped to the length, and an empty range gives an empty result.
\<close>

definition slice_buf :: "'a list \<Rightarrow> nat \<Rightarrow> nat \<Rightarrow> 'a list" where
  "slice_buf a b e =
     (let first = min b (length a); final = min e (length a)
      in take (final - first) (drop first a))"

definition slice_from :: "'a list \<Rightarrow> nat \<Rightarrow> 'a list" where
  "slice_from a b = slice_buf a b (length a)"

text \<open>
  The UTF-8 decoder of the Encoding standard, which \<^verbatim>\<open>TextDecoder\<close> runs in its default,
  non-fatal mode: \<open>needed\<close> counts the continuation bytes still expected, \<open>cp\<close> is the code
  point under construction, \<open>lower\<close> and \<open>upper\<close> bound the next continuation byte.
  A malformed sequence yields U+FFFD and the offending byte is read again as a lead byte.
\<close>

function utf8_decoder :: "nat \<Rightarrow> nat \<Rightarrow> nat \<Rightarrow> nat \<Rightarrow> nat list \<Rightarrow> nat list" where
  "utf8_decoder needed cp lower upper [] = (if needed = 0 then [] else [0xFFFD])"
| "utf8_decoder needed cp lower upper (b # bs) =
     (if needed = 0 then
        (if b \<le> 0x7F then b # utf8_decoder 0 0 0x80 0xBF bs
         else if 0xC2 \<le> b \<and> b \<le> 0xDF then utf8_decoder 1 (b mod 32) 0x80 0xBF bs
         else if 0xE0 \<le> b \<and> b \<le> 0xEF then
           utf8_decoder 2 (b mod 16) (if b = 0xE0 then 0xA0 else 0x80)
             (if b = 0xED then 0x9F else 0xBF) bs
         else if 0xF0 \<le> b \<and> b \<le> 0xF4 then
           utf8_decoder 3 (b mod 8) (if b = 0xF0 then 0x90 else 0x80)
             (if b = 0xF4 then 0x8F else 0xBF) bs
         else 0xFFFD # utf8_decoder 0 0 0x80 0xBF bs)
      else if b < lower \<or> upper < b then 0xFFFD # utf8_decoder 0 0 0x80 0xBF (b # bs)
      else if needed = 1 then (cp * 64 + b mod 64) # utf8_decoder 0 0 0x80 0xBF bs
      else utf8_decoder (needed - 1) (cp * 64 + b mod 64) 0x80 0xBF bs)"
  by pat_completeness auto
termination
  by (relation "measure (\<lambda>(needed, cp, lower, upper, bs).
        2 * length bs + (if needed = 0 then 0 else 1))") auto

definition utf16 :: "nat \<Rightarrow> jsstring" where
  "utf16 cp =
     (if cp < 0x10000 then [cp]
      else [0xD800 + (cp - 0x10000) div 0x400, 0xDC00 + (cp - 0x10000) mod 0x400])"

definition utf8_code_points :: "bytes \<Rightarrow> nat list" where
  "utf8_code_points bs = utf8_decoder 0 0 0x80 0xBF (map unat bs)"

text \<open>\<^verbatim>\<open>new TextDecoder().decode(bytes)\<close>: UTF-8, non-fatal, a leading byte order mark removed.\<close>

definition TextDecoder_decode :: "bytes \<Rightarrow> jsstring" where
  "TextDecoder_decode bs =
     (let cps = utf8_code_points bs
      in concat (map utf16 (if take 1 cps = [0xFEFF] then drop 1 cps else cps)))"

text \<open>\<^verbatim>\<open>buf.toString()\<close> of a Node Buffer: UTF-8, non-fatal, the byte order mark kept.\<close>

definition Buffer_toString :: "bytes \<Rightarrow> jsstring" where
  "Buffer_toString bs = concat (map utf16 (utf8_code_points bs))"

text \<open>The code units that \<^verbatim>\<open>String.prototype.trim\<close> removes (WhiteSpace and LineTerminator).\<close>

definition isWhiteSpace :: "nat \<Rightarrow> bool" where
  "isWhiteSpace c \<longleftrightarrow>
     c \<in> set [0x9, 0xA, 0xB, 0xC, 0xD, 0x20, 0xA0, 0x1680, 0x2028, 0x2029, 0x202F,
              0x205F, 0x3000, 0xFEFF]
     \<or> (0x2000 \<le> c \<and> c \<le> 0x200A)"

definition trim :: "jsstring \<Rightarrow> jsstring" where
  "trim s = rev (dropWhile isWhiteSpace (rev (dropWhile isWhiteSpace s)))"

definition startsWith :: "jsstring \<Rightarrow> jsstring \<Rightarrow> bool" where
  "startsWith s p \<longleftrightarrow> take (length p) s = p"

text \<open>
  \<^verbatim>\<open>s.split(sep)\<close> for a one-character separator: never an empty array (lemma
  \<open>split_not_Nil\<close> below), so the \<^verbatim>\<open>pop()\<close> that follows it in the loaders
  always returns the last element.
\<close>

fun split :: "nat \<Rightarrow> jsstring \<Rightarrow> jsstring list" where
  "split sep [] = [[]]"
| "split sep (c # cs) =
     (if c = sep then [] # split sep cs
      else (case split sep cs of
              [] \<Rightarrow> [[c]]
            | w # ws \<Rightarrow> (c # w) # ws))"

text \<open>
  \<^verbatim>\<open>toLowerCase\<close>: exact on ASCII and on the only two other code units whose lower case
  contains an ASCII letter (U+0130 and the Kelvin sign U+212A). Every other code unit
  is kept as it is; its real lower case is again outside ASCII, so comparisons
  with the ASCII extension names of the loaders are unaffected.
\<close>

definition lower_unit :: "nat \<Rightarrow> jsstring" where
  "lower_unit c =
     (if 0x41 \<le> c \<and> c \<le> 0x5A then [c + 0x20]
      else if c = 0x130 then [0x69, 0x307]
      else if c = 0x212A then [0x6B]
      else [c])"

definition toLowerCase :: "jsstring \<Rightarrow> jsstring" where
  "toLowerCase s = concat (map lower_unit s)"

section \<open>The format sniffer\<close>

text \<open>
  \<^verbatim>\<open>detectFormat\<close> of the first loader (src/lpk-loader.js): the ZIP signature first,
  then the first ten bytes decoded as text and trimmed, then the default.
\<close>

definition detectFormat :: "bytes \<Rightarrow> jsstring" where
  "detectFormat arrayBuffer =
     (if u8_at arrayBuffer 0 = Some 0x50 \<and> u8_at arrayBuffer 1 = Some 0x4B then js ''zip''
      else
        (let start = TextDecoder_decode (slice_buf arrayBuffer 0 10)
         in if startsWith (trim start) (js ''{'') \<or> startsWith (trim start) (js ''['')
            then js ''json''
            else js ''binary''))"


section \<open>The binary table parser\<close>

text \<open>
  Little-endian reads. \<^verbatim>\<open>DataView.getUint16/getUint32(offset, true)\<close> and
  \<^verbatim>\<open>new Uint8Array(buffer, byteOffset, length)\<close> throw a RangeError when the range
  leaves the buffer.
\<close>

definition le_nat :: "bytes \<Rightarrow> nat" where
  "le_nat bs = foldr (\<lambda>b acc. unat b + 256 * acc) bs 0"

definition getUint16 :: "bytes \<Rightarrow> nat \<Rightarrow> js_error + nat" where
  "getUint16 view offset =
     (if offset + 2 \<le> length view then Inr (le_nat (take 2 (drop offset view)))
      else Inl RangeError)"

definition getUint32 :: "bytes \<Rightarrow> nat \<Rightarrow> js_error + nat" where
  "getUint32 view offset =
     (if offset + 4 \<le> length view then Inr (le_nat (take 4 (drop offset view)))
      else Inl RangeError)"

definition Uint8Array_view :: "bytes \<Rightarrow> nat \<Rightarrow> nat \<Rightarrow> js_error + bytes" where
  "Uint8Array_view buffer byteOffset len =
     (if byteOffset + len \<le> length buffer then Inr (take len (drop byteOffset buffer))
      else Inl RangeError)"

definition String_fromCharCode :: "bytes \<Rightarrow> jsstring" where
  "String_fromCharCode bs = map unat bs"

text \<open>A row of the asset table: \<^verbatim>\<open>{ name, type, size, dataOffset }\<close>.\<close>

record table_asset =
  asset_name :: jsstring
  asset_type :: nat
  asset_size :: nat
  asset_dataOffset :: nat

text \<open>An element of \<^verbatim>\<open>assets.models\<close> or \<^verbatim>\<open>assets.textures\<close>: \<^verbatim>\<open>{ filename, data, type }\<close>.\<close>

record asset_entry =
  filename :: jsstring
  entry_data :: bytes
  entry_type :: jsstring

text \<open>
  \<^verbatim>\<open>result.assets.data\<close> is a plain object used as a dictionary from names to byte
  buffers. It is modelled by its own properties, an association list updated in place
  (a repeated name keeps the last value written), and by its prototype: \<open>None\<close> is
  \<^verbatim>\<open>Object.prototype\<close>, which the object literal \<^verbatim>\<open>{}\<close> starts with, and \<open>Some b\<close> is the
  buffer \<open>b\<close> that an assignment to the name \<^verbatim>\<open>__proto__\<close> has put in its place.
\<close>

record data_object =
  own_keys :: "(jsstring \<times> bytes) list"
  prototype :: "bytes option"

definition empty_object :: data_object where
  "empty_object = \<lparr>own_keys = [], prototype = None\<rparr>"

text \<open>
  The accessor properties of \<^verbatim>\<open>ArrayBuffer.prototype\<close> that have a getter and no setter
  (ECMAScript 2024; earlier editions have \<^verbatim>\<open>byteLength\<close> alone).
\<close>

definition arraybuffer_getters :: "jsstring list" where
  "arraybuffer_getters = map js [''byteLength'', ''detached'', ''maxByteLength'', ''resizable'']"

text \<open>
  The assignment \<^verbatim>\<open>obj[key] = value\<close> in strict code (a class body), for an \<^verbatim>\<open>ArrayBuffer\<close>
  value. An own property is overwritten. Otherwise the prototype chain decides: below
  a buffer, a getter-only accessor of \<^verbatim>\<open>ArrayBuffer.prototype\<close> rejects the assignment,
  which throws a TypeError; the setter of \<^verbatim>\<open>Object.prototype.__proto__\<close> replaces the
  prototype and creates no property; every other name becomes a new own property.
\<close>

definition assign :: "data_object \<Rightarrow> jsstring \<Rightarrow> bytes \<Rightarrow> js_error + data_object" where
  "assign obj key v =
     (if key \<in> set (map fst (own_keys obj)) then
        Inr (obj\<lparr>own_keys := AList.update key v (own_keys obj)\<rparr>)
      else if prototype obj \<noteq> None \<and> key \<in> set arraybuffer_getters then Inl TypeError
      else if key = js ''__proto__'' then Inr (obj\<lparr>prototype := Some v\<rparr>)
      else Inr (obj\<lparr>own_keys := AList.update key v (own_keys obj)\<rparr>))"

text \<open>
  \<^verbatim>\<open>result.assets\<close>. Each property is absent (\<open>None\<close>) until the first entry of its kind
  arrives.
\<close>

record lpk_assets =
  models :: "asset_entry list option"
  textures :: "asset_entry list option"
  data :: "data_object option"

text \<open>The parse result. \<open>metadata = None\<close> is the empty object \<^verbatim>\<open>{}\<close>.\<close>

record 'j lpk_result =
  format :: jsstring
  version :: "nat option"
  assets :: lpk_assets
  metadata :: "'j option"

definition no_assets :: lpk_assets where
  "no_assets = \<lparr>models = None, textures = None, data = None\<rparr>"

definition or_empty :: "'a list option \<Rightarrow> 'a list" where
  "or_empty p = (case p of None \<Rightarrow> [] | Some xs \<Rightarrow> xs)"

text \<open>\<^verbatim>\<open>result.assets.data || {}\<close>\<close>

definition or_object :: "data_object option \<Rightarrow> data_object" where
  "or_object p = (case p of None \<Rightarrow> empty_object | Some obj \<Rightarrow> obj)"

definition model_exts :: "jsstring list" where
  "model_exts = map js [''gltf'', ''glb'', ''obj'', ''fbx'']"

definition texture_exts :: "jsstring list" where
  "texture_exts = map js [''png'', ''jpg'', ''jpeg'', ''webp'', ''gif'']"

text \<open>\<^verbatim>\<open>name.split('.').pop().toLowerCase()\<close>\<close>

definition extension :: "jsstring \<Rightarrow> jsstring" where
  "extension name = toLowerCase (last (split 0x2E name))"

text \<open>The asset table loop: \<open>n\<close> rows are still to be read, the cursor is at \<open>offset\<close>.\<close>

fun read_asset_table :: "bytes \<Rightarrow> nat \<Rightarrow> nat \<Rightarrow> js_error + table_asset list" where
  "read_asset_table view offset 0 = Inr []"
| "read_asset_table view offset (Suc n) =
     (case getUint16 view offset of Inl e \<Rightarrow> Inl e | Inr nameLength \<Rightarrow>
     (case Uint8Array_view view (offset + 2) nameLength of Inl e \<Rightarrow> Inl e | Inr nameBytes \<Rightarrow>
     (case getUint32 view (offset + 2 + nameLength) of Inl e \<Rightarrow> Inl e | Inr type \<Rightarrow>
     (case getUint32 view (offset + 2 + nameLength + 4) of Inl e \<Rightarrow> Inl e | Inr size' \<Rightarrow>
     (case getUint32 view (offset + 2 + nameLength + 8) of Inl e \<Rightarrow> Inl e | Inr dataOffset \<Rightarrow>
     (case read_asset_table view (offset + 2 + nameLength + 12) n of Inl e \<Rightarrow> Inl e
      | Inr rest \<Rightarrow>
          Inr (\<lparr>asset_name = TextDecoder_decode nameBytes, asset_type = type,
                asset_size = size', asset_dataOffset = dataOffset\<rparr> # rest)))))))"

text \<open>
  The body of the extraction loop: slice the asset's bytes and file them by extension.
  Only the assignment into \<^verbatim>\<open>data\<close> can throw.
\<close>

definition extract_asset :: "bytes \<Rightarrow> lpk_assets \<Rightarrow> table_asset \<Rightarrow> js_error + lpk_assets" where
  "extract_asset arrayBuffer acc asset =
     (let assetData = slice_buf arrayBuffer (asset_dataOffset asset)
                        (asset_dataOffset asset + asset_size asset);
          ext = extension (asset_name asset)
      in if ext \<in> set model_exts then
           Inr (acc\<lparr>models := Some (or_empty (models acc) @
             [\<lparr>filename = asset_name asset, entry_data = assetData, entry_type = ext\<rparr>])\<rparr>)
         else if ext \<in> set texture_exts then
           Inr (acc\<lparr>textures := Some (or_empty (textures acc) @
             [\<lparr>filename = asset_name asset, entry_data = assetData, entry_type = ext\<rparr>])\<rparr>)
         else
           (case assign (or_object (data acc)) (asset_name asset) assetData of
              Inl e \<Rightarrow> Inl e
            | Inr obj \<Rightarrow> Inr (acc\<lparr>data := Some obj\<rparr>)))"

text \<open>The extraction loop over the rows of the table; an exception ends it.\<close>

fun extract_assets :: "bytes \<Rightarrow> lpk_assets \<Rightarrow> table_asset list \<Rightarrow> js_error + lpk_assets" where
  "extract_assets arrayBuffer acc [] = Inr acc"
| "extract_assets arrayBuffer acc (asset # rest) =
     (case extract_asset arrayBuffer acc asset of
        Inl e \<Rightarrow> Inl e
      | Inr acc' \<Rightarrow> extract_assets arrayBuffer acc' rest)"

text \<open>
  \<^verbatim>\<open>parseBinaryLPK\<close> from the version field on, with the cursor at \<open>offset\<close>:
  version, asset count, the table, then the extraction loop.
\<close>

definition read_header_table :: "bytes \<Rightarrow> nat \<Rightarrow> js_error + nat \<times> table_asset list" where
  "read_header_table arrayBuffer offset =
     (case getUint32 arrayBuffer offset of Inl e \<Rightarrow> Inl e | Inr ver \<Rightarrow>
     (case getUint32 arrayBuffer (offset + 4) of Inl e \<Rightarrow> Inl e | Inr assetCount \<Rightarrow>
     (case read_asset_table arrayBuffer (offset + 8) assetCount of Inl e \<Rightarrow> Inl e
      | Inr rows \<Rightarrow> Inr (ver, rows))))"

definition parse_from :: "bytes \<Rightarrow> nat \<Rightarrow> js_error + 'j lpk_result" where
  "parse_from arrayBuffer offset =
     (case read_header_table arrayBuffer offset of Inl e \<Rightarrow> Inl e
      | Inr (ver, rows) \<Rightarrow>
          (case extract_assets arrayBuffer no_assets rows of Inl e \<Rightarrow> Inl e
           | Inr a \<Rightarrow>
               Inr \<lparr>format = js ''binary'', version = Some ver, assets = a,
                    metadata = None\<rparr>))"

definition lpk_magic :: jsstring where
  "lpk_magic = js ''LPK'' @ [0]"

definition magic_warning :: string where
  "magic_warning = ''LPK magic number mismatch, attempting to parse anyway...''"

text \<open>
  The cursor after the magic check: 4 when the first four bytes are \<^verbatim>\<open>'LPK\0'\<close>, reset
  to 0 otherwise. Reading the four bytes throws when the buffer is shorter.
\<close>

definition magic_cursor :: "bytes \<Rightarrow> js_error + nat" where
  "magic_cursor arrayBuffer =
     (case Uint8Array_view arrayBuffer 0 4 of Inl e \<Rightarrow> Inl e
      | Inr magicBytes \<Rightarrow>
          Inr (if String_fromCharCode magicBytes \<noteq> lpk_magic then 0 else 4))"

text \<open>
  \<^verbatim>\<open>parseBinaryLPK\<close>: the lines written by \<^verbatim>\<open>console.warn\<close>, and the result or the
  exception thrown.
\<close>

definition parseBinaryLPK :: "bytes \<Rightarrow> string list \<times> (js_error + 'j lpk_result)" where
  "parseBinaryLPK arrayBuffer =
     (case magic_cursor arrayBuffer of Inl e \<Rightarrow> ([], Inl e)
      | Inr offset \<Rightarrow>
          (if offset = 0 then [magic_warning] else [], parse_from arrayBuffer offset))"

text \<open>The asset table that \<^verbatim>\<open>parseBinaryLPK\<close> reads from a buffer.\<close>

definition asset_table :: "bytes \<Rightarrow> js_error + table_asset list" where
  "asset_table arrayBuffer =
     (case magic_cursor arrayBuffer of Inl e \<Rightarrow> Inl e
      | Inr offset \<Rightarrow> map_sum id snd (read_header_table arrayBuffer offset))"

section \<open>The ZIP-based parser\<close>

text \<open>
  JSZip is an external library. What \<^verbatim>\<open>zip.loadAsync\<close> yields is taken as given: the
  entries of \<^verbatim>\<open>zipFile.files\<close> in order, each a directory flag and the outcome of
  reading the file's bytes. \<^verbatim>\<open>JSON.parse\<close> is a parameter as well.
\<close>

record zip_object =
  dir :: bool
  async_data :: "js_error + bytes"

text \<open>
  The loop over \<^verbatim>\<open>Object.entries(zipFile.files)\<close>. In the \<^verbatim>\<open>json\<close> branch the parsed
  value is assigned to \<^verbatim>\<open>result.assets.data[filename]\<close>, but \<^verbatim>\<open>result.assets\<close> is
  \<^verbatim>\<open>{}\<close> and has no \<^verbatim>\<open>data\<close>: the assignment throws a TypeError.
\<close>

fun zip_loop :: "(bytes \<Rightarrow> js_error + 'j) \<Rightarrow> (jsstring \<times> zip_object) list \<Rightarrow> lpk_assets
    \<Rightarrow> js_error + lpk_assets" where
  "zip_loop JSON_parse [] acc = Inr acc"
| "zip_loop JSON_parse ((name, file) # rest) acc =
     (if dir file then zip_loop JSON_parse rest acc
      else
        (case async_data file of Inl e \<Rightarrow> Inl e
         | Inr bs \<Rightarrow>
             if extension name \<in> set model_exts then
               zip_loop JSON_parse rest
                 (acc\<lparr>models := Some (or_empty (models acc) @
                   [\<lparr>filename = name, entry_data = bs, entry_type = extension name\<rparr>])\<rparr>)
             else if extension name \<in> set texture_exts then
               zip_loop JSON_parse rest
                 (acc\<lparr>textures := Some (or_empty (textures acc) @
                   [\<lparr>filename = name, entry_data = bs, entry_type = extension name\<rparr>])\<rparr>)
             else if extension name = js ''json'' then
               (case JSON_parse bs of Inl e \<Rightarrow> Inl e | Inr jsonData \<Rightarrow> Inl TypeError)
             else zip_loop JSON_parse rest acc))"



section \<open>The local-file-header scan of the analysis script\<close>

text \<open>
  Node's \<^verbatim>\<open>buf.readUInt16LE\<close> and \<^verbatim>\<open>buf.readUInt32LE\<close> throw a RangeError when the read
  leaves the buffer.
\<close>

definition readUInt16LE :: "bytes \<Rightarrow> nat \<Rightarrow> js_error + nat" where
  "readUInt16LE buf offset =
     (if offset + 2 \<le> length buf then Inr (le_nat (take 2 (drop offset buf)))
      else Inl RangeError)"

definition readUInt32LE :: "bytes \<Rightarrow> nat \<Rightarrow> js_error + nat" where
  "readUInt32LE buf offset =
     (if offset + 4 \<le> length buf then Inr (le_nat (take 4 (drop offset buf)))
      else Inl RangeError)"

text \<open>An element of \<^verbatim>\<open>files\<close>: \<^verbatim>\<open>{ filename, compressedSize, uncompressedSize, offset }\<close>.\<close>

record local_file =
  file_name :: jsstring
  compressedSize :: nat
  uncompressedSize :: nat
  file_offset :: nat

definition is_signature :: "bytes \<Rightarrow> nat \<Rightarrow> bool" where
  "is_signature zipData offset \<longleftrightarrow>
     u8_at zipData offset = Some 0x50 \<and> u8_at zipData (offset + 1) = Some 0x4B \<and>
     u8_at zipData (offset + 2) = Some 0x03 \<and> u8_at zipData (offset + 3) = Some 0x04"

text \<open>
  The \<^verbatim>\<open>while\<close> loop of test-lpk.js from cursor \<open>offset\<close>: the files it pushes from
  there on, in order. \<^verbatim>\<open>zipData.length - 30\<close> is negative for a short buffer, hence the
  comparison on \<open>int\<close>.
\<close>

function scan_files :: "bytes \<Rightarrow> nat \<Rightarrow> js_error + local_file list" where
  "scan_files zipData offset =
     (if int offset < int (length zipData) - 30 then
        (if is_signature zipData offset then
           (case readUInt16LE zipData (offset + 26) of Inl e \<Rightarrow> Inl e | Inr filenameLength \<Rightarrow>
           (case readUInt16LE zipData (offset + 28) of Inl e \<Rightarrow> Inl e | Inr extraFieldLength \<Rightarrow>
           (case readUInt32LE zipData (offset + 18) of Inl e \<Rightarrow> Inl e | Inr cSize \<Rightarrow>
           (case readUInt32LE zipData (offset + 22) of Inl e \<Rightarrow> Inl e | Inr uSize \<Rightarrow>
           (case scan_files zipData (offset + 30 + filenameLength + extraFieldLength + cSize) of
              Inl e \<Rightarrow> Inl e
            | Inr files \<Rightarrow>
                Inr (\<lparr>file_name = Buffer_toString
                        (slice_buf zipData (offset + 30) (offset + 30 + filenameLength)),
                      compressedSize = cSize, uncompressedSize = uSize,
                      file_offset = offset + 30 + filenameLength + extraFieldLength\<rparr>
                     # files))))))
         else scan_files zipData (offset + 1))
      else Inr [])"
  by pat_completeness auto
termination
  by (relation "measure (\<lambda>(zipData, offset). length zipData - offset)") auto

declare scan_files.simps [simp del]

text \<open>
  The script: \<^verbatim>\<open>zipData = lpkData.slice(8)\<close>, then the scan from offset 0. The second
  loader's \<^verbatim>\<open>extractZipData\<close> takes the same slice.
\<close>

definition extractZipData :: "bytes \<Rightarrow> bytes" where
  "extractZipData arrayBuffer = slice_from arrayBuffer 8"

definition found_files :: "bytes \<Rightarrow> js_error + local_file list" where
  "found_files lpkData = scan_files (extractZipData lpkData) 0"

section \<open>Reading a manifest\<close>

text \<open>
  \<open>manifest_entry a n d\<close>: the assets \<open>a\<close> hold an entry named \<open>n\<close> with bytes \<open>d\<close>, as
  an element of \<^verbatim>\<open>models\<close> or \<^verbatim>\<open>textures\<close> or as the own property \<open>n\<close> of \<^verbatim>\<open>data\<close>.
\<close>

definition manifest_entry :: "lpk_assets \<Rightarrow> jsstring \<Rightarrow> bytes \<Rightarrow> bool" where
  "manifest_entry a n d \<longleftrightarrow>
     (n, d) \<in> set (map (\<lambda>e. (filename e, entry_data e))
                  (or_empty (models a) @ or_empty (textures a)))
     \<or> map_of (own_keys (or_object (data a))) n = Some d"

text \<open>\<open>plain_data a\<close>: the \<^verbatim>\<open>data\<close> object, if there is one, still has its first prototype.\<close>

definition plain_data :: "lpk_assets \<Rightarrow> bool" where
  "plain_data a \<longleftrightarrow> prototype (or_object (data a)) = None"

section \<open>Sample inputs\<close>

text \<open>
  The header the analysis report gives for the observed file (\<^verbatim>\<open>b8fb467e\<close>), padded to
  eight bytes, in front of the first bytes of a ZIP local file header.
\<close>

definition lpk_header_sample :: bytes where
  "lpk_header_sample = [0xB8, 0xFB, 0x46, 0x7E, 0, 0, 0, 0, 0x50, 0x4B, 0x03, 0x04]"

text \<open>
  A binary table with the magic tag, version 1 and two rows: \<^verbatim>\<open>a.PNG\<close> (2 bytes at
  offset 46) and \<^verbatim>\<open>x\<close> (3 bytes at offset 48). The buffer is 51 bytes long.
\<close>

definition lpk_binary_sample :: bytes where
  "lpk_binary_sample =
     [0x4C, 0x50, 0x4B, 0x00,  1, 0, 0, 0,  2, 0, 0, 0,
      5, 0,  0x61, 0x2E, 0x50, 0x4E, 0x47,  0, 0, 0, 0,  2, 0, 0, 0,  46, 0, 0, 0,
      1, 0,  0x78,  0, 0, 0, 0,  3, 0, 0, 0,  48, 0, 0, 0,
      0xAA, 0xBB,  1, 2, 3]"

text \<open>The same table, but row \<^verbatim>\<open>x\<close> declares 5 bytes at offset 48: two more than the buffer has.\<close>

definition lpk_truncated_sample :: bytes where
  "lpk_truncated_sample =
     [0x4C, 0x50, 0x4B, 0x00,  1, 0, 0, 0,  2, 0, 0, 0,
      5, 0,  0x61, 0x2E, 0x50, 0x4E, 0x47,  0, 0, 0, 0,  2, 0, 0, 0,  46, 0, 0, 0,
      1, 0,  0x78,  0, 0, 0, 0,  5, 0, 0, 0,  48, 0, 0, 0,
      0xAA, 0xBB,  1, 2, 3]"

text \<open>
  A table without the magic tag: version 7 at offset 0, one row \<^verbatim>\<open>x\<close> (2 bytes at
  offset 23). The buffer is 25 bytes long.
\<close>

definition lpk_nomagic_sample :: bytes where
  "lpk_nomagic_sample =
     [7, 0, 0, 0,  1, 0, 0, 0,
      1, 0,  0x78,  0, 0, 0, 0,  2, 0, 0, 0,  23, 0, 0, 0,
      0x0A, 0x0B]"

definition row_a_png :: table_asset where
  "row_a_png = \<lparr>asset_name = js ''a.PNG'', asset_type = 0, asset_size = 2, asset_dataOffset = 46\<rparr>"

definition row_x :: "nat \<Rightarrow> nat \<Rightarrow> table_asset" where
  "row_x sz off = \<lparr>asset_name = js ''x'', asset_type = 0, asset_size = sz, asset_dataOffset = off\<rparr>"

text \<open>
  A table with the magic tag, version 1 and two rows whose ranges are in bounds:
  \<^verbatim>\<open>__proto__\<close> (2 bytes at offset 59) and \<^verbatim>\<open>byteLength\<close> (1 byte at offset 61). The
  buffer is 62 bytes long.
\<close>

definition lpk_proto_sample :: bytes where
  "lpk_proto_sample =
     [0x4C, 0x50, 0x4B, 0x00,  1, 0, 0, 0,  2, 0, 0, 0,
      9, 0,  0x5F, 0x5F, 0x70, 0x72, 0x6F, 0x74, 0x6F, 0x5F, 0x5F,
      0, 0, 0, 0,  2, 0, 0, 0,  59, 0, 0, 0,
      10, 0,  0x62, 0x79, 0x74, 0x65, 0x4C, 0x65, 0x6E, 0x67, 0x74, 0x68,
      0, 0, 0, 0,  1, 0, 0, 0,  61, 0, 0, 0,
      7, 8,  9]"

text \<open>The same table, but row \<^verbatim>\<open>byteLength\<close> declares 5 bytes at offset 61: four too many.\<close>

definition lpk_proto_truncated_sample :: bytes where
  "lpk_proto_truncated_sample =
     [0x4C, 0x50, 0x4B, 0x00,  1, 0, 0, 0,  2, 0, 0, 0,
      9, 0,  0x5F, 0x5F, 0x70, 0x72, 0x6F, 0x74, 0x6F, 0x5F, 0x5F,
      0, 0, 0, 0,  2, 0, 0, 0,  59, 0, 0, 0,
      10, 0,  0x62, 0x79, 0x74, 0x65, 0x4C, 0x65, 0x6E, 0x67, 0x74, 0x68,
      0, 0, 0, 0,  5, 0, 0, 0,  61, 0, 0, 0,
      7, 8,  9]"

definition row_proto :: table_asset where
  "row_proto =
     \<lparr>asset_name = js ''__proto__'', asset_type = 0, asset_size = 2, asset_dataOffset = 59\<rparr>"

definition row_byteLength :: "nat \<Rightarrow> table_asset" where
  "row_byteLength sz =
     \<lparr>asset_name = js ''byteLength'', asset_type = 0, asset_size = sz, asset_dataOffset = 61\<rparr>"

text \<open>
  A valid archive behind the 8-byte header, with two stored files: \<^verbatim>\<open>a\<close> (2 bytes) and
  \<^verbatim>\<open>b.png\<close> (3 bytes), followed by the central directory.
\<close>

definition lpk_two_files_sample :: bytes where
  "lpk_two_files_sample =
     [0xB8, 0xFB, 0x46, 0x7E, 0x00, 0x00, 0x00, 0x00, 0x50, 0x4B, 0x03, 0x04, 0x14, 0x00, 0x00, 0x00,
      0x00, 0x00, 0x00, 0x00, 0x21, 0x00, 0xAC, 0x2A, 0x93, 0xD8, 0x02, 0x00, 0x00, 0x00, 0x02, 0x00,
      0x00, 0x00, 0x01, 0x00, 0x00, 0x00, 0x61, 0x68, 0x69, 0x50, 0x4B, 0x03, 0x04, 0x14, 0x00, 0x00,
      0x00, 0x00, 0x00, 0x00, 0x00, 0x21, 0x00, 0xFB, 0xED, 0x6D, 0x0A, 0x03, 0x00, 0x00, 0x00, 0x03,
      0x00, 0x00, 0x00, 0x05, 0x00, 0x00, 0x00, 0x62, 0x2E, 0x70, 0x6E, 0x67, 0x79, 0x6F, 0x21, 0x50,
      0x4B, 0x01, 0x02, 0x14, 0x00, 0x14, 0x00, 0x00, 0x00, 0x00, 0x00, 0x00, 0x00, 0x21, 0x00, 0xAC,
      0x2A, 0x93, 0xD8, 0x02, 0x00, 0x00, 0x00, 0x02, 0x00, 0x00, 0x00, 0x01, 0x00, 0x00, 0x00, 0x00,
      0x00, 0x00, 0x00, 0x00, 0x00, 0x00, 0x00, 0x80, 0x01, 0x00, 0x00, 0x00, 0x00, 0x61, 0x50, 0x4B,
      0x01, 0x02, 0x14, 0x00, 0x14, 0x00, 0x00, 0x00, 0x00, 0x00, 0x00, 0x00, 0x21, 0x00, 0xFB, 0xED,
      0x6D, 0x0A, 0x03, 0x00, 0x00, 0x00, 0x03, 0x00, 0x00, 0x00, 0x05, 0x00, 0x00, 0x00, 0x00, 0x00,
      0x00, 0x00, 0x00, 0x00, 0x00, 0x00, 0x80, 0x01, 0x21, 0x00, 0x00, 0x00, 0x62, 0x2E, 0x70, 0x6E,
      0x67, 0x50, 0x4B, 0x05, 0x06, 0x00, 0x00, 0x00, 0x00, 0x02, 0x00, 0x02, 0x00, 0x62, 0x00, 0x00,
      0x00, 0x47, 0x00, 0x00, 0x00, 0x00, 0x00]"

text \<open>
  A valid archive behind the 8-byte header, with one stored file \<^verbatim>\<open>a\<close> whose four bytes
  of content are themselves \<^verbatim>\<open>50 4B 03 04\<close>.
\<close>

definition lpk_nested_signature_sample :: bytes where
  "lpk_nested_signature_sample =
     [0xB8, 0xFB, 0x46, 0x7E, 0x00, 0x00, 0x00, 0x00, 0x50, 0x4B, 0x03, 0x04, 0x14, 0x00, 0x00, 0x00,
      0x00, 0x00, 0x00, 0x00, 0x21, 0x00, 0x45, 0x25, 0xC6, 0xBA, 0x04, 0x00, 0x00, 0x00, 0x04, 0x00,
      0x00, 0x00, 0x01, 0x00, 0x00, 0x00, 0x61, 0x50, 0x4B, 0x03, 0x04, 0x50, 0x4B, 0x01, 0x02, 0x14,
      0x00, 0x14, 0x00, 0x00, 0x00, 0x00, 0x00, 0x00, 0x00, 0x21, 0x00, 0x45, 0x25, 0xC6, 0xBA, 0x04,
      0x00, 0x00, 0x00, 0x04, 0x00, 0x00, 0x00, 0x01, 0x00, 0x00, 0x00, 0x00, 0x00, 0x00, 0x00, 0x00,
      0x00, 0x00, 0x00, 0x80, 0x01, 0x00, 0x00, 0x00, 0x00, 0x61, 0x50, 0x4B, 0x05, 0x06, 0x00, 0x00,
      0x00, 0x00, 0x01, 0x00, 0x01, 0x00, 0x2F, 0x00, 0x00, 0x00, 0x23, 0x00, 0x00, 0x00, 0x00, 0x00]"

text \<open>An 8-byte header followed by a zero-length body.\<close>

definition lpk_header_only_sample :: bytes where
  "lpk_header_only_sample = [0xB8, 0xFB, 0x46, 0x7E, 0, 0, 0, 0]"




section \<open>The specification's wording, for comparison\<close>

text \<open>
  The edge-case policy of the specification for one table row: a row whose
  \<^verbatim>\<open>dataOffset + size\<close> exceeds the buffer length becomes a \<^verbatim>\<open>TruncatedEntry\<close> marker,
  any other row is extracted.
\<close>

datatype spec_entry = TruncatedEntry | Extracted bytes

definition spec_extract :: "bytes \<Rightarrow> table_asset \<Rightarrow> spec_entry" where
  "spec_extract buffer r =
     (if asset_dataOffset r + asset_size r > length buffer then TruncatedEntry
      else Extracted (take (asset_size r) (drop (asset_dataOffset r) buffer)))"

text \<open>
  The little-endian unsigned 16-bit and 32-bit values at an offset of a buffer, byte
  by byte.
\<close>

definition u16_at :: "bytes \<Rightarrow> nat \<Rightarrow> nat" where
  "u16_at z p = unat (z ! p) + 256 * unat (z ! (p + 1))"

definition u32_at :: "bytes \<Rightarrow> nat \<Rightarrow> nat" where
  "u32_at z p =
     unat (z ! p) + 256 * unat (z ! (p + 1)) + 65536 * unat (z ! (p + 2))
     + 16777216 * unat (z ! (p + 3))"

text \<open>
  The entry the specification describes for a local file header at position \<open>p\<close> of
  the body: compressed size at +18, uncompressed size at +22, filename length at +26,
  extra-field length at +28, the name in the bytes after the 30-byte record, the
  payload after name and extra field. \<open>spec_entry_end\<close> is the position after the
  payload, \<open>30 + filenameLength + extraFieldLength + compressedSize\<close> bytes on.
\<close>

definition spec_local_entry :: "bytes \<Rightarrow> nat \<Rightarrow> local_file" where
  "spec_local_entry z p =
     \<lparr>file_name = Buffer_toString (take (u16_at z (p + 26)) (drop (p + 30) z)),
      compressedSize = u32_at z (p + 18),
      uncompressedSize = u32_at z (p + 22),
      file_offset = p + 30 + u16_at z (p + 26) + u16_at z (p + 28)\<rparr>"

definition spec_entry_end :: "bytes \<Rightarrow> nat \<Rightarrow> nat" where
  "spec_entry_end z p = p + 30 + u16_at z (p + 26) + u16_at z (p + 28) + u32_at z (p + 18)"

text \<open>The occurrences of the local-file-header signature in a body, in ascending order.\<close>

definition signature_positions :: "bytes \<Rightarrow> nat list" where
  "signature_positions z = filter (is_signature z) [0 ..< length z]"

text \<open>
  The category table of the specification. The extension of a name is its last
  dot-separated segment in lower case, as the loaders compute it; a name without a dot
  is its own last segment.
\<close>

datatype category = Model | Texture | Data | Unknown

definition spec_category :: "jsstring \<Rightarrow> category" where
  "spec_category name =
     (if extension name \<in> set (map js [''gltf'', ''glb'', ''obj'', ''fbx'']) then Model
      else if extension name \<in> set (map js [''png'', ''jpg'', ''jpeg'', ''webp'', ''gif''])
        then Texture
      else if extension name = js ''json'' then Data
      else Unknown)"


section \<open>Properties of the platform functions\<close>

lemma split_not_Nil: "split sep s \<noteq> []"
  by (induction s) (auto split: list.splits)

lemma slice_buf_take_drop: "slice_buf a b e = take (e - b) (drop b a)"
  by (cases "b \<le> length a") (simp_all add: slice_buf_def min_def)

lemma slice_buf_0_Cons: "slice_buf (b # bs) 0 (Suc n) = b # slice_buf bs 0 n"
  by (simp add: slice_buf_def)

lemma trim_Cons_keep:
  "\<not> isWhiteSpace c \<Longrightarrow> trim (c # s) = c # rev (dropWhile isWhiteSpace (rev s))"
  by (simp add: trim_def dropWhile_append)

lemma startsWith_single: "startsWith (c # s) [d] \<longleftrightarrow> c = d"
  by (simp add: startsWith_def)

section \<open>Properties of the format sniffer\<close>

lemma zip_signature_iff:
  "(u8_at buf 0 = Some 0x50 \<and> u8_at buf 1 = Some 0x4B) \<longleftrightarrow> take 2 buf = [0x50, 0x4B]"
proof (cases buf)
  case Nil
  then show ?thesis by (simp add: u8_at_def)
next
  case (Cons a as)
  then show ?thesis by (cases as) (auto simp: u8_at_def)
qed

lemma tags_distinct: "distinct [js ''zip'', js ''json'', js ''binary'']"
  by (simp add: js_def)

lemma detectFormat_zip_iff: "detectFormat buf = js ''zip'' \<longleftrightarrow> take 2 buf = [0x50, 0x4B]"
  unfolding zip_signature_iff [symmetric]
  by (simp add: detectFormat_def Let_def js_def)

lemma decode_B8:
  "TextDecoder_decode (0xB8 # bs) =
     0xFFFD # concat (map utf16 (utf8_decoder 0 0 0x80 0xBF (map unat bs)))"
  by (simp add: TextDecoder_decode_def utf8_code_points_def utf16_def)

lemma detectFormat_B8: "detectFormat (0xB8 # bs) = js ''binary''"
proof -
  have nw: "\<not> isWhiteSpace 0xFFFD"
    by (simp add: isWhiteSpace_def)
  have s: "slice_buf (0xB8 # bs) 0 10 = 0xB8 # slice_buf bs 0 9"
    using slice_buf_0_Cons [of "0xB8" bs 9] by simp
  show ?thesis
    by (simp add: detectFormat_def u8_at_def s decode_B8 trim_Cons_keep [OF nw]
        startsWith_single js_def)
qed

lemma detectFormat_empty: "detectFormat [] = js ''binary''"
  by (simp add: detectFormat_def u8_at_def TextDecoder_decode_def slice_buf_def
      utf8_code_points_def trim_def startsWith_def js_def)

text \<open>
  Claim C8. For every input buffer, the empty one and malformed ones included,
  \<^verbatim>\<open>detectFormat\<close> returns exactly one of the three tags \<^verbatim>\<open>'zip'\<close>, \<^verbatim>\<open>'json'\<close> and
  \<^verbatim>\<open>'binary'\<close>, and it returns \<^verbatim>\<open>'binary'\<close> whenever neither the ZIP signature nor a
  leading brace or bracket is found. The function has no throwing path: an index
  outside the typed array reads \<^verbatim>\<open>undefined\<close>, \<^verbatim>\<open>slice\<close> clamps, and the decoder
  replaces malformed input. The tags are pairwise different, the empty buffer is
  tagged \<^verbatim>\<open>'binary'\<close>.
\<close>

theorem detectFormat_closed_set:
  "detectFormat buf \<in> {js ''zip'', js ''json'', js ''binary''}
   \<and> distinct [js ''zip'', js ''json'', js ''binary'']
   \<and> detectFormat [] = js ''binary''
   \<and> (take 2 buf \<noteq> [0x50, 0x4B]
        \<and> \<not> startsWith (trim (TextDecoder_decode (slice_buf buf 0 10))) (js ''{'')
        \<and> \<not> startsWith (trim (TextDecoder_decode (slice_buf buf 0 10))) (js ''['')
      \<longrightarrow> detectFormat buf = js ''binary'')"
proof -
  have "detectFormat buf \<in> {js ''zip'', js ''json'', js ''binary''}"
    by (simp add: detectFormat_def Let_def)
  moreover have "take 2 buf \<noteq> [0x50, 0x4B]
        \<and> \<not> startsWith (trim (TextDecoder_decode (slice_buf buf 0 10))) (js ''{'')
        \<and> \<not> startsWith (trim (TextDecoder_decode (slice_buf buf 0 10))) (js ''['')
      \<longrightarrow> detectFormat buf = js ''binary''"
    using zip_signature_iff [of buf] by (auto simp: detectFormat_def Let_def)
  ultimately show ?thesis
    using tags_distinct detectFormat_empty by blast
qed

theorem detectFormat_closed_set_witness:
  "take 2 [0x4C, 0x50, 0x4B, 0x00 :: byte] \<noteq> [0x50, 0x4B]
   \<and> \<not> startsWith (trim (TextDecoder_decode (slice_buf [0x4C, 0x50, 0x4B, 0x00] 0 10))) (js ''{'')
   \<and> \<not> startsWith (trim (TextDecoder_decode (slice_buf [0x4C, 0x50, 0x4B, 0x00] 0 10))) (js ''['')
   \<and> detectFormat [0x4C, 0x50, 0x4B, 0x00] = js ''binary''"
  using detectFormat_closed_set [of "[0x4C, 0x50, 0x4B, 0x00]"]
  by (simp add: TextDecoder_decode_def slice_buf_def utf8_code_points_def utf16_def
      trim_def isWhiteSpace_def startsWith_def js_def)

text \<open>
  Claim C3, as stated, fails: the sniffer knows no magic prefix. A buffer that starts
  with the observed header \<^verbatim>\<open>b8 fb 46 7e\<close>, followed by an embedded archive, is tagged
  \<^verbatim>\<open>'binary'\<close>, not \<^verbatim>\<open>'zip'\<close>.
\<close>

theorem detectFormat_magic_prefix_counterexample:
  "take 4 lpk_header_sample = [0xB8, 0xFB, 0x46, 0x7E]
   \<and> detectFormat lpk_header_sample = js ''binary''
   \<and> detectFormat lpk_header_sample \<noteq> js ''zip''"
  by (simp add: lpk_header_sample_def detectFormat_B8) (simp add: js_def)

text \<open>
  Claim C3, amended. \<^verbatim>\<open>detectFormat\<close> returns \<^verbatim>\<open>'zip'\<close> exactly when byte 0 is 0x50 and
  byte 1 is 0x4B. There is no other way to the nested-archive tag: every buffer that
  starts with the header bytes \<^verbatim>\<open>b8 fb 46 7e\<close> is tagged \<^verbatim>\<open>'binary'\<close>.
\<close>

theorem detectFormat_zip_only_by_PK:
  "(detectFormat buf = js ''zip'' \<longleftrightarrow> take 2 buf = [0x50, 0x4B])
   \<and> (take 4 buf = [0xB8, 0xFB, 0x46, 0x7E] \<longrightarrow> detectFormat buf = js ''binary'')"
proof -
  have "detectFormat buf = js ''binary''" if h: "take 4 buf = [0xB8, 0xFB, 0x46, 0x7E]"
  proof -
    from h obtain bs where "buf = 0xB8 # bs"
      by (cases buf) auto
    then show ?thesis
      by (simp add: detectFormat_B8)
  qed
  then show ?thesis
    using detectFormat_zip_iff by blast
qed

theorem detectFormat_zip_only_by_PK_witness:
  "take 4 [0xB8, 0xFB, 0x46, 0x7E, 0x01, 0x02 :: byte] = [0xB8, 0xFB, 0x46, 0x7E]
   \<and> detectFormat [0xB8, 0xFB, 0x46, 0x7E, 0x01, 0x02] = js ''binary''
   \<and> take 2 [0x50, 0x4B, 0x03 :: byte] = [0x50, 0x4B]
   \<and> detectFormat [0x50, 0x4B, 0x03] = js ''zip''"
  using detectFormat_zip_only_by_PK [of "[0xB8, 0xFB, 0x46, 0x7E, 0x01, 0x02]"]
    detectFormat_zip_only_by_PK [of "[0x50, 0x4B, 0x03]"]
  by simp

section \<open>Properties of the binary table parser\<close>

lemma or_empty_simps [simp]: "or_empty None = []" "or_empty (Some xs) = xs"
  by (simp_all add: or_empty_def)

lemma or_object_simps [simp]: "or_object None = empty_object" "or_object (Some obj) = obj"
  by (simp_all add: or_object_def)

lemma manifest_entry_no_assets [simp]: "\<not> manifest_entry no_assets n d"
  by (simp add: manifest_entry_def no_assets_def empty_object_def)

lemma plain_data_no_assets [simp]: "plain_data no_assets"
  by (simp add: plain_data_def no_assets_def empty_object_def)

lemma assign_own_keys:
  "assign obj key v = Inr obj' \<Longrightarrow> map_of (own_keys obj') n = Some d \<Longrightarrow>
     map_of (own_keys obj) n = Some d \<or> (n = key \<and> d = v)"
  by (auto simp: assign_def AList.update_conv' split: if_splits)

lemma assign_plain:
  "prototype obj = None \<Longrightarrow> key \<noteq> js ''__proto__'' \<Longrightarrow>
     assign obj key v = Inr (obj\<lparr>own_keys := AList.update key v (own_keys obj)\<rparr>)"
  by (simp add: assign_def)

lemma extract_asset_entry_origin:
  assumes "extract_asset buf acc r = Inr acc'" and "manifest_entry acc' n d"
  shows "manifest_entry acc n d \<or>
     (n = asset_name r \<and> d = take (asset_size r) (drop (asset_dataOffset r) buf))"
proof (cases "extension (asset_name r) \<in> set model_exts \<or> extension (asset_name r) \<in> set texture_exts")
  case True
  with assms show ?thesis
    by (auto simp: extract_asset_def Let_def manifest_entry_def slice_buf_take_drop
        split: if_splits)
next
  case False
  with assms(1) obtain obj where
    a: "assign (or_object (data acc)) (asset_name r)
          (take (asset_size r) (drop (asset_dataOffset r) buf)) = Inr obj"
    and acc': "acc' = acc\<lparr>data := Some obj\<rparr>"
    by (auto simp: extract_asset_def Let_def slice_buf_take_drop split: sum.splits)
  from assms(2) acc' consider
    "(n, d) \<in> set (map (\<lambda>e. (filename e, entry_data e))
                  (or_empty (models acc) @ or_empty (textures acc)))"
    | "map_of (own_keys obj) n = Some d"
    by (auto simp: manifest_entry_def)
  then show ?thesis
  proof cases
    case 1
    then show ?thesis by (simp add: manifest_entry_def)
  next
    case 2
    from assign_own_keys [OF a 2] show ?thesis
      by (auto simp: manifest_entry_def)
  qed
qed

lemma extract_assets_entry_origin:
  "extract_assets buf acc rows = Inr acc' \<Longrightarrow> manifest_entry acc' n d \<Longrightarrow>
     manifest_entry acc n d \<or>
     (\<exists>r \<in> set rows. n = asset_name r \<and> d = take (asset_size r) (drop (asset_dataOffset r) buf))"
proof (induction rows arbitrary: acc)
  case Nil
  then show ?case by simp
next
  case (Cons x xs)
  from Cons.prems(1) obtain a where a: "extract_asset buf acc x = Inr a"
    and rest: "extract_assets buf a xs = Inr acc'"
    by (auto split: sum.splits)
  from Cons.IH [OF rest Cons.prems(2)] extract_asset_entry_origin [OF a, of n d]
  show ?case by auto
qed

lemma extract_asset_plain:
  assumes "plain_data acc" and "asset_name r \<noteq> js ''__proto__''"
  shows "\<exists>acc'. extract_asset buf acc r = Inr acc' \<and> plain_data acc'
     \<and> manifest_entry acc' (asset_name r) (take (asset_size r) (drop (asset_dataOffset r) buf))
     \<and> (\<forall>n d. manifest_entry acc n d \<and> n \<noteq> asset_name r \<longrightarrow> manifest_entry acc' n d)"
  using assms
  by (auto simp: extract_asset_def Let_def plain_data_def manifest_entry_def assign_plain
      slice_buf_take_drop AList.update_conv')

lemma extract_assets_append:
  "extract_assets buf acc (xs @ ys) =
     (case extract_assets buf acc xs of Inl e \<Rightarrow> Inl e | Inr a \<Rightarrow> extract_assets buf a ys)"
  by (induction xs arbitrary: acc) (auto split: sum.splits)

lemma extract_assets_plain:
  "plain_data acc \<Longrightarrow> \<forall>r \<in> set rows. asset_name r \<noteq> js ''__proto__'' \<Longrightarrow>
     \<exists>acc'. extract_assets buf acc rows = Inr acc' \<and> plain_data acc'"
proof (induction rows arbitrary: acc)
  case Nil
  then show ?case by simp
next
  case (Cons x xs)
  from extract_asset_plain [of acc x buf] Cons.prems
  obtain a where "extract_asset buf acc x = Inr a" "plain_data a"
    by auto
  with Cons.IH [of a] Cons.prems(2) show ?case
    by auto
qed

lemma extract_assets_unique_row:
  assumes "plain_data acc" and "\<forall>r \<in> set rows. asset_name r \<noteq> js ''__proto__''"
    and "extract_assets buf acc rows = Inr acc'"
    and "r \<in> set rows" and "\<forall>r' \<in> set rows. asset_name r' = asset_name r \<longrightarrow> r' = r"
  shows "manifest_entry acc' (asset_name r) (take (asset_size r) (drop (asset_dataOffset r) buf))"
  using assms(2-)
proof (induction rows arbitrary: acc' rule: rev_induct)
  case Nil
  then show ?case by simp
next
  case (snoc x xs)
  from extract_assets_plain [OF assms(1), of xs buf] snoc.prems(1)
  obtain a where a: "extract_assets buf acc xs = Inr a" and pa: "plain_data a"
    by auto
  with snoc.prems(2) have x: "extract_asset buf a x = Inr acc'"
    by (simp add: extract_assets_append split: sum.splits)
  from snoc.prems(1) have nx: "asset_name x \<noteq> js ''__proto__''"
    by simp
  from extract_asset_plain [OF pa nx, of buf] x
  have adds: "manifest_entry acc' (asset_name x)
      (take (asset_size x) (drop (asset_dataOffset x) buf))"
    and keeps: "\<And>n d. manifest_entry a n d \<Longrightarrow> n \<noteq> asset_name x \<Longrightarrow> manifest_entry acc' n d"
    by auto
  show ?case
  proof (cases "x = r")
    case True
    with adds show ?thesis by simp
  next
    case False
    with snoc.prems(3,4) have "r \<in> set xs" and "asset_name x \<noteq> asset_name r"
      by auto
    with snoc.IH [OF _ a] snoc.prems(1,4) keeps show ?thesis
      by auto
  qed
qed

lemma extract_assets_every_name:
  assumes "plain_data acc" and "\<forall>r \<in> set rows. asset_name r \<noteq> js ''__proto__''"
    and "extract_assets buf acc rows = Inr acc'"
    and "r \<in> set rows"
  shows "\<exists>d. manifest_entry acc' (asset_name r) d"
  using assms(2-)
proof (induction rows arbitrary: acc' rule: rev_induct)
  case Nil
  then show ?case by simp
next
  case (snoc x xs)
  from extract_assets_plain [OF assms(1), of xs buf] snoc.prems(1)
  obtain a where a: "extract_assets buf acc xs = Inr a" and pa: "plain_data a"
    by auto
  with snoc.prems(2) have x: "extract_asset buf a x = Inr acc'"
    by (simp add: extract_assets_append split: sum.splits)
  from snoc.prems(1) have nx: "asset_name x \<noteq> js ''__proto__''"
    by simp
  from extract_asset_plain [OF pa nx, of buf] x
  have adds: "manifest_entry acc' (asset_name x)
      (take (asset_size x) (drop (asset_dataOffset x) buf))"
    and keeps: "\<And>n d. manifest_entry a n d \<Longrightarrow> n \<noteq> asset_name x \<Longrightarrow> manifest_entry acc' n d"
    by auto
  show ?case
  proof (cases "asset_name x = asset_name r")
    case True
    with adds show ?thesis by auto
  next
    case False
    with snoc.prems(3) have "r \<in> set xs"
      by auto
    with snoc.IH [OF _ a] snoc.prems(1) obtain d where "manifest_entry a (asset_name r) d"
      by auto
    with keeps False show ?thesis
      by metis
  qed
qed

lemma asset_table_parse:
  "asset_table buf = Inr rows \<Longrightarrow>
     snd (parseBinaryLPK buf) =
       (case extract_assets buf no_assets rows of Inl e \<Rightarrow> Inl e
        | Inr a \<Rightarrow> Inr \<lparr>format = js ''binary'',
                       version = Some (le_nat (take 4 (drop (case magic_cursor buf of Inr off \<Rightarrow> off | Inl e \<Rightarrow> 0) buf))),
                       assets = a, metadata = None\<rparr>)"
  by (auto simp: asset_table_def parseBinaryLPK_def parse_from_def read_header_table_def
      getUint32_def split: sum.splits if_splits)

lemma asset_table_parse_plain:
  assumes "asset_table buf = Inr rows" and "\<forall>r \<in> set rows. asset_name r \<noteq> js ''__proto__''"
  shows "\<exists>res. snd (parseBinaryLPK buf) = Inr res \<and>
       extract_assets buf no_assets rows = Inr (assets res)"
proof -
  from extract_assets_plain [OF plain_data_no_assets assms(2), of buf]
  obtain a where "extract_assets buf no_assets rows = Inr a"
    by blast
  then show ?thesis
    by (simp add: asset_table_parse [OF assms(1)])
qed

lemma read_asset_table_length:
  "read_asset_table view off n = Inr rows \<Longrightarrow> length rows = n"
  by (induction n arbitrary: off rows) (auto split: sum.splits)

lemma magic_bytes_iff:
  "String_fromCharCode bs = lpk_magic \<longleftrightarrow> bs = [0x4C, 0x50, 0x4B, 0x00]"
proof -
  have u: "unat b = k \<longleftrightarrow> b = of_nat k" if "k < 256" for b :: byte and k
    using that by (auto simp: unat_of_nat)
  have m: "lpk_magic = [76, 80, 75, 0]"
    by (simp add: lpk_magic_def js_def)
  show ?thesis
    unfolding m String_fromCharCode_def
    by (auto simp: map_eq_Cons_conv u)
qed

lemma read_asset_table_numeral:
  "read_asset_table view off (numeral k) = read_asset_table view off (Suc (pred_numeral k))"
  by (simp add: numeral_eq_Suc)

lemma read_asset_table_1:
  "read_asset_table view off 1 = read_asset_table view off (Suc 0)"
  by simp

lemmas eval_defs = asset_table_def magic_cursor_def Uint8Array_view_def String_fromCharCode_def
  lpk_magic_def js_def read_header_table_def getUint32_def getUint16_def le_nat_def
  TextDecoder_decode_def utf8_code_points_def utf16_def read_asset_table_numeral read_asset_table_1

lemma asset_table_binary_sample:
  "asset_table lpk_binary_sample = Inr [row_a_png, row_x 3 48]"
  by (simp add: lpk_binary_sample_def eval_defs row_a_png_def row_x_def)

lemma asset_table_truncated_sample:
  "asset_table lpk_truncated_sample = Inr [row_a_png, row_x 5 48]"
  by (simp add: lpk_truncated_sample_def eval_defs row_a_png_def row_x_def)

lemma asset_table_nomagic_sample:
  "asset_table lpk_nomagic_sample = Inr [row_x 2 23]"
  by (simp add: lpk_nomagic_sample_def eval_defs row_a_png_def row_x_def)



lemma length_slice_buf_nat:
  "length (slice_buf a b e) = min (length a) e - min (length a) b"
  by (simp add: slice_buf_def Let_def)

lemma length_slice_buf:
  "int (length (slice_buf a b e)) = max 0 (int (min (length a) e) - int (min (length a) b))"
  unfolding length_slice_buf_nat by arith

lemma range_past_end_iff:
  "\<not> {off ..< off + sz} \<subseteq> {..< len} \<longleftrightarrow> 0 < sz \<and> len < off + (sz::nat)"
proof -
  have "\<not> {off ..< off + sz} \<subseteq> {..< len} \<longleftrightarrow> (\<exists>i. off \<le> i \<and> i < off + sz \<and> len \<le> i)"
    by (auto simp: subset_eq not_less)
  also have "\<dots> \<longleftrightarrow> 0 < sz \<and> len < off + sz"
  proof
    assume "\<exists>i. off \<le> i \<and> i < off + sz \<and> len \<le> i"
    then show "0 < sz \<and> len < off + sz" by auto
  next
    assume "0 < sz \<and> len < off + sz"
    then have "off \<le> off + sz - 1 \<and> off + sz - 1 < off + sz \<and> len \<le> off + sz - 1"
      by arith
    then show "\<exists>i. off \<le> i \<and> i < off + sz \<and> len \<le> i" ..
  qed
  finally show ?thesis .
qed

lemma magic_cursor_mismatch:
  "4 \<le> length buf \<Longrightarrow> take 4 buf \<noteq> [0x4C, 0x50, 0x4B, 0x00] \<Longrightarrow> magic_cursor buf = Inr 0"
  by (simp add: magic_cursor_def Uint8Array_view_def magic_bytes_iff)

lemma magic_cursor_match:
  "take 4 buf = [0x4C, 0x50, 0x4B, 0x00] \<Longrightarrow> magic_cursor buf = Inr 4"
proof -
  assume h: "take 4 buf = [0x4C, 0x50, 0x4B, 0x00]"
  then have "length (take 4 buf) = 4" by simp
  then have "4 \<le> length buf" by simp
  with h show ?thesis
    by (simp add: magic_cursor_def Uint8Array_view_def magic_bytes_iff)
qed

lemma asset_table_proto_sample:
  "asset_table lpk_proto_sample = Inr [row_proto, row_byteLength 1]"
  by (simp add: lpk_proto_sample_def eval_defs row_proto_def row_byteLength_def)

lemma asset_table_proto_truncated_sample:
  "asset_table lpk_proto_truncated_sample = Inr [row_proto, row_byteLength 5]"
  by (simp add: lpk_proto_truncated_sample_def eval_defs row_proto_def row_byteLength_def)

lemmas extract_eval = extract_asset_def Let_def extension_def toLowerCase_def lower_unit_def
  model_exts_def texture_exts_def slice_buf_take_drop no_assets_def assign_def empty_object_def
  arraybuffer_getters_def js_def

lemma extract_row_proto:
  "extract_asset buf no_assets row_proto =
     Inr \<lparr>models = None, textures = None,
          data = Some \<lparr>own_keys = [], prototype = Some (take 2 (drop 59 buf))\<rparr>\<rparr>"
  by (simp add: extract_eval row_proto_def)

lemma extract_row_byteLength:
  "extract_asset buf
     \<lparr>models = None, textures = None, data = Some \<lparr>own_keys = [], prototype = Some b\<rparr>\<rparr>
     (row_byteLength sz) = Inl TypeError"
  by (simp add: extract_eval row_byteLength_def)

lemma parse_proto_rows_throws:
  assumes "asset_table buf = Inr [row_proto, row_byteLength sz]"
  shows "snd (parseBinaryLPK buf :: string list \<times> (js_error + 'j lpk_result)) = Inl TypeError"
  by (simp add: asset_table_parse [OF assms] extract_row_proto extract_row_byteLength)

text \<open>
  What the extraction does for a table in which no row is named \<^verbatim>\<open>__proto__\<close>, so that
  the prototype of \<^verbatim>\<open>data\<close> is never replaced. When every row is in bounds, the parser
  returns a manifest whose every entry carries exactly the bytes
  \<^verbatim>\<open>buffer[dataOffset .. dataOffset+size)\<close> of a row with the entry's name, the offset
  counted from the start of the whole buffer, and every row whose name no other row
  shares is present with these bytes.
\<close>

lemma exact_ranges_without_proto:
  assumes table: "asset_table buf = Inr rows"
    and names: "\<forall>r \<in> set rows. asset_name r \<noteq> js ''__proto__''"
    and inb: "\<forall>r \<in> set rows. asset_dataOffset r + asset_size r \<le> length buf"
  shows "\<exists>res :: 'j lpk_result. snd (parseBinaryLPK buf) = Inr res
     \<and> (\<forall>n d. manifest_entry (assets res) n d \<longrightarrow>
           (\<exists>r \<in> set rows. n = asset_name r
              \<and> d = take (asset_size r) (drop (asset_dataOffset r) buf)
              \<and> length d = asset_size r))
     \<and> (\<forall>r \<in> set rows. (\<forall>r' \<in> set rows. asset_name r' = asset_name r \<longrightarrow> r' = r) \<longrightarrow>
           manifest_entry (assets res) (asset_name r)
             (take (asset_size r) (drop (asset_dataOffset r) buf)))"
proof -
  from asset_table_parse_plain [OF table names]
  obtain res :: "'j lpk_result" where res: "snd (parseBinaryLPK buf) = Inr res"
    and a: "extract_assets buf no_assets rows = Inr (assets res)"
    by blast
  have origin: "\<exists>r \<in> set rows. n = asset_name r
      \<and> d = take (asset_size r) (drop (asset_dataOffset r) buf) \<and> length d = asset_size r"
    if "manifest_entry (assets res) n d" for n d
  proof -
    from extract_assets_entry_origin [OF a that]
    obtain r where r: "r \<in> set rows" "n = asset_name r"
      "d = take (asset_size r) (drop (asset_dataOffset r) buf)"
      by auto
    from inb r(1) have "asset_dataOffset r + asset_size r \<le> length buf"
      by blast
    then have "length d = asset_size r"
      using r(3) by simp
    with r show ?thesis by blast
  qed
  have present: "manifest_entry (assets res) (asset_name r)
      (take (asset_size r) (drop (asset_dataOffset r) buf))"
    if "r \<in> set rows" "\<forall>r' \<in> set rows. asset_name r' = asset_name r \<longrightarrow> r' = r" for r
    using extract_assets_unique_row [OF plain_data_no_assets names a that] .
  from res origin present show ?thesis
    by blast
qed

text \<open>
  For such a table with a row whose range \<^verbatim>\<open>[dataOffset, dataOffset+size)\<close> contains an
  index that is not an index of the buffer: the parser returns a manifest, with an
  entry for the name of every row; every entry is the \<^verbatim>\<open>slice\<close> of a row, of length
  \<^verbatim>\<open>max(0, min(len, dataOffset+size) - min(len, dataOffset))\<close>; the entry of the overlong
  row, when no other row shares its name, is shorter than the declared size.
\<close>

lemma clamps_past_end_without_proto:
  assumes table: "asset_table buf = Inr rows"
    and names: "\<forall>r \<in> set rows. asset_name r \<noteq> js ''__proto__''"
    and r: "r \<in> set rows"
    and past: "\<not> {asset_dataOffset r ..< asset_dataOffset r + asset_size r} \<subseteq> {..< length buf}"
  shows "\<exists>res :: 'j lpk_result. snd (parseBinaryLPK buf) = Inr res
     \<and> (\<forall>r' \<in> set rows. \<exists>d. manifest_entry (assets res) (asset_name r') d)
     \<and> (\<forall>n d. manifest_entry (assets res) n d \<longrightarrow>
           (\<exists>r' \<in> set rows. n = asset_name r'
              \<and> d = slice_buf buf (asset_dataOffset r') (asset_dataOffset r' + asset_size r')
              \<and> int (length d) =
                  max 0 (int (min (length buf) (asset_dataOffset r' + asset_size r'))
                         - int (min (length buf) (asset_dataOffset r')))))
     \<and> ((\<forall>r' \<in> set rows. asset_name r' = asset_name r \<longrightarrow> r' = r) \<longrightarrow>
           (\<exists>d. manifest_entry (assets res) (asset_name r) d
              \<and> int (length d) =
                  max 0 (int (min (length buf) (asset_dataOffset r + asset_size r))
                         - int (min (length buf) (asset_dataOffset r)))
              \<and> length d < asset_size r))"
proof -
  from asset_table_parse_plain [OF table names]
  obtain res :: "'j lpk_result" where res: "snd (parseBinaryLPK buf) = Inr res"
    and a: "extract_assets buf no_assets rows = Inr (assets res)"
    by blast
  have every: "\<exists>d. manifest_entry (assets res) (asset_name r') d" if "r' \<in> set rows" for r'
    using extract_assets_every_name [OF plain_data_no_assets names a that] .
  have origin: "\<exists>r' \<in> set rows. n = asset_name r'
      \<and> d = slice_buf buf (asset_dataOffset r') (asset_dataOffset r' + asset_size r')
      \<and> int (length d) =
          max 0 (int (min (length buf) (asset_dataOffset r' + asset_size r'))
                 - int (min (length buf) (asset_dataOffset r')))"
    if "manifest_entry (assets res) n d" for n d
  proof -
    from extract_assets_entry_origin [OF a that]
    obtain r' where r': "r' \<in> set rows" "n = asset_name r'"
      "d = take (asset_size r') (drop (asset_dataOffset r') buf)"
      by auto
    then have "d = slice_buf buf (asset_dataOffset r') (asset_dataOffset r' + asset_size r')"
      by (simp add: slice_buf_take_drop)
    with r' length_slice_buf [of buf "asset_dataOffset r'" "asset_dataOffset r' + asset_size r'"]
    show ?thesis by auto
  qed
  have own: "\<exists>d. manifest_entry (assets res) (asset_name r) d
      \<and> int (length d) =
          max 0 (int (min (length buf) (asset_dataOffset r + asset_size r))
                 - int (min (length buf) (asset_dataOffset r)))
      \<and> length d < asset_size r"
    if u: "\<forall>r' \<in> set rows. asset_name r' = asset_name r \<longrightarrow> r' = r"
  proof -
    let ?d = "take (asset_size r) (drop (asset_dataOffset r) buf)"
    have m: "manifest_entry (assets res) (asset_name r) ?d"
      using extract_assets_unique_row [OF plain_data_no_assets names a r u] .
    have s: "?d = slice_buf buf (asset_dataOffset r) (asset_dataOffset r + asset_size r)"
      by (simp add: slice_buf_take_drop)
    from past have "0 < asset_size r \<and> length buf < asset_dataOffset r + asset_size r"
      by (simp only: range_past_end_iff)
    then have "length ?d < asset_size r"
      by auto
    with m s length_slice_buf [of buf "asset_dataOffset r" "asset_dataOffset r + asset_size r"]
    show ?thesis by auto
  qed
  from res every origin own show ?thesis
    by blast
qed

text \<open>
  Claim C1 fails on the code. In the sample both rows are in bounds. The first is
  named \<^verbatim>\<open>__proto__\<close>: assigning its bytes to \<^verbatim>\<open>data['__proto__']\<close> creates no entry but
  makes the buffer the prototype of \<^verbatim>\<open>data\<close>. The second is named \<^verbatim>\<open>byteLength\<close>: the
  assignment now meets the getter-only accessor of \<^verbatim>\<open>ArrayBuffer.prototype\<close> and
  throws a TypeError, so the parser returns no manifest at all.
\<close>

theorem parseBinaryLPK_proto_key_throws:
  "asset_table lpk_proto_sample = Inr [row_proto, row_byteLength 1]
   \<and> asset_dataOffset row_proto + asset_size row_proto \<le> length lpk_proto_sample
   \<and> asset_dataOffset (row_byteLength 1) + asset_size (row_byteLength 1) \<le> length lpk_proto_sample
   \<and> snd (parseBinaryLPK lpk_proto_sample :: string list \<times> (js_error + unit lpk_result))
       = Inl TypeError"
proof -
  have "asset_dataOffset row_proto + asset_size row_proto \<le> length lpk_proto_sample"
    "asset_dataOffset (row_byteLength 1) + asset_size (row_byteLength 1) \<le> length lpk_proto_sample"
    by (simp_all add: row_proto_def row_byteLength_def lpk_proto_sample_def)
  with asset_table_proto_sample parse_proto_rows_throws [OF asset_table_proto_sample]
  show ?thesis by blast
qed

text \<open>
  Claim C10 fails on the code through the same defect. In the sample row
  \<^verbatim>\<open>byteLength\<close> declares 5 bytes at offset 61 of a 62-byte buffer, after a row named
  \<^verbatim>\<open>__proto__\<close>. The overlong row is not stored with clamped data: the assignment into
  \<^verbatim>\<open>data\<close> throws a TypeError and the parse is lost.
\<close>

theorem parseBinaryLPK_proto_key_throws_past_end:
  "asset_table lpk_proto_truncated_sample = Inr [row_proto, row_byteLength 5]
   \<and> length lpk_proto_truncated_sample
       < asset_dataOffset (row_byteLength 5) + asset_size (row_byteLength 5)
   \<and> snd (parseBinaryLPK lpk_proto_truncated_sample
            :: string list \<times> (js_error + unit lpk_result)) = Inl TypeError"
proof -
  have "length lpk_proto_truncated_sample
       < asset_dataOffset (row_byteLength 5) + asset_size (row_byteLength 5)"
    by (simp add: row_byteLength_def lpk_proto_truncated_sample_def)
  with asset_table_proto_truncated_sample
    parse_proto_rows_throws [OF asset_table_proto_truncated_sample]
  show ?thesis by blast
qed

lemma parse_truncated_sample:
  "snd (parseBinaryLPK lpk_truncated_sample :: string list \<times> (js_error + unit lpk_result)) =
     Inr \<lparr>format = js ''binary'', version = Some 1,
          assets = \<lparr>models = None,
                    textures = Some [\<lparr>filename = js ''a.PNG'', entry_data = [0xAA, 0xBB],
                                      entry_type = js ''png''\<rparr>],
                    data = Some \<lparr>own_keys = [(js ''x'', [1, 2, 3])], prototype = None\<rparr>\<rparr>,
          metadata = None\<rparr>"
proof -
  have t: "read_header_table lpk_truncated_sample 4 = Inr (1, [row_a_png, row_x 5 48])"
    by (simp add: lpk_truncated_sample_def eval_defs row_a_png_def row_x_def)
  have c: "magic_cursor lpk_truncated_sample = Inr 4"
    by (simp add: lpk_truncated_sample_def eval_defs)
  have e1: "extract_asset lpk_truncated_sample no_assets row_a_png =
      Inr \<lparr>models = None,
           textures = Some [\<lparr>filename = js ''a.PNG'', entry_data = [0xAA, 0xBB],
                             entry_type = js ''png''\<rparr>],
           data = None\<rparr>"
    by (simp add: extract_eval row_a_png_def lpk_truncated_sample_def)
  have e2: "extract_asset lpk_truncated_sample
      \<lparr>models = None,
        textures = Some [\<lparr>filename = js ''a.PNG'', entry_data = [0xAA, 0xBB],
                          entry_type = js ''png''\<rparr>],
        data = None\<rparr> (row_x 5 48) =
      Inr \<lparr>models = None,
           textures = Some [\<lparr>filename = js ''a.PNG'', entry_data = [0xAA, 0xBB],
                             entry_type = js ''png''\<rparr>],
           data = Some \<lparr>own_keys = [(js ''x'', [1, 2, 3])], prototype = None\<rparr>\<rparr>"
    by (simp add: extract_eval row_x_def lpk_truncated_sample_def)
  show ?thesis
    by (simp add: parseBinaryLPK_def c parse_from_def t e1 e2)
qed

text \<open>
  Claim C4, as stated, fails: the parser has no \<^verbatim>\<open>TruncatedEntry\<close> marker. In the sample
  below row \<^verbatim>\<open>x\<close> declares 5 bytes at offset 48 of a 51-byte buffer. The specification's
  policy marks the row as truncated; the parser stores it as an ordinary \<^verbatim>\<open>data\<close> entry
  holding the three bytes that exist.
\<close>

theorem parseBinaryLPK_truncation_counterexample:
  "asset_table lpk_truncated_sample = Inr [row_a_png, row_x 5 48]
   \<and> length lpk_truncated_sample < asset_dataOffset (row_x 5 48) + asset_size (row_x 5 48)
   \<and> spec_extract lpk_truncated_sample (row_x 5 48) = TruncatedEntry
   \<and> snd (parseBinaryLPK lpk_truncated_sample :: string list \<times> (js_error + unit lpk_result)) =
       Inr \<lparr>format = js ''binary'', version = Some 1,
            assets = \<lparr>models = None,
                      textures = Some [\<lparr>filename = js ''a.PNG'', entry_data = [0xAA, 0xBB],
                                        entry_type = js ''png''\<rparr>],
                      data = Some \<lparr>own_keys = [(js ''x'', [1, 2, 3])], prototype = None\<rparr>\<rparr>,
            metadata = None\<rparr>"
proof -
  have "length lpk_truncated_sample < asset_dataOffset (row_x 5 48) + asset_size (row_x 5 48)"
    by (simp add: row_x_def lpk_truncated_sample_def)
  then show ?thesis
    using asset_table_truncated_sample parse_truncated_sample
    by (simp add: spec_extract_def)
qed

text \<open>
  Claim C4, amended. For every binary-table buffer whose table is read, has no row
  named \<^verbatim>\<open>__proto__\<close> and has a row with \<^verbatim>\<open>dataOffset + size\<close> beyond the buffer length,
  \<^verbatim>\<open>parseBinaryLPK\<close> does not throw and records no marker: the manifest holds that row as
  an ordinary entry with the bytes from \<^verbatim>\<open>dataOffset\<close> to the end of the buffer, and
  every row whose range is in bounds is extracted intact, with exactly \<^verbatim>\<open>size\<close> bytes.
  Both hold for rows whose name no other row of the table shares (a repeated name
  under \<^verbatim>\<open>data\<close> keeps the last row only).
\<close>

theorem parseBinaryLPK_keeps_truncated_row:
  assumes table: "asset_table buf = Inr rows"
    and names: "\<forall>r' \<in> set rows. asset_name r' \<noteq> js ''__proto__''"
    and r: "r \<in> set rows"
    and over: "length buf < asset_dataOffset r + asset_size r"
  shows "\<exists>res :: 'j lpk_result. snd (parseBinaryLPK buf) = Inr res
     \<and> ((\<forall>r' \<in> set rows. asset_name r' = asset_name r \<longrightarrow> r' = r) \<longrightarrow>
           manifest_entry (assets res) (asset_name r) (drop (asset_dataOffset r) buf))
     \<and> (\<forall>r' \<in> set rows.
           asset_dataOffset r' + asset_size r' \<le> length buf
           \<and> (\<forall>r'' \<in> set rows. asset_name r'' = asset_name r' \<longrightarrow> r'' = r') \<longrightarrow>
           manifest_entry (assets res) (asset_name r')
             (take (asset_size r') (drop (asset_dataOffset r') buf))
           \<and> length (take (asset_size r') (drop (asset_dataOffset r') buf)) = asset_size r')"
proof -
  from asset_table_parse_plain [OF table names]
  obtain res :: "'j lpk_result" where res: "snd (parseBinaryLPK buf) = Inr res"
    and a: "extract_assets buf no_assets rows = Inr (assets res)"
    by blast
  have present: "manifest_entry (assets res) (asset_name q)
      (take (asset_size q) (drop (asset_dataOffset q) buf))"
    if "q \<in> set rows" "\<forall>r' \<in> set rows. asset_name r' = asset_name q \<longrightarrow> r' = q" for q
    using extract_assets_unique_row [OF plain_data_no_assets names a that] .
  from over have "take (asset_size r) (drop (asset_dataOffset r) buf) = drop (asset_dataOffset r) buf"
    by simp
  with present [OF r]
  have own: "(\<forall>r' \<in> set rows. asset_name r' = asset_name r \<longrightarrow> r' = r) \<longrightarrow>
      manifest_entry (assets res) (asset_name r) (drop (asset_dataOffset r) buf)"
    by simp
  have others: "manifest_entry (assets res) (asset_name q)
        (take (asset_size q) (drop (asset_dataOffset q) buf))
      \<and> length (take (asset_size q) (drop (asset_dataOffset q) buf)) = asset_size q"
    if "q \<in> set rows" "asset_dataOffset q + asset_size q \<le> length buf"
      "\<forall>r' \<in> set rows. asset_name r' = asset_name q \<longrightarrow> r' = q" for q
    using present [OF that(1) that(3)] that(2) by simp
  from res own others show ?thesis
    by blast
qed

theorem parseBinaryLPK_keeps_truncated_row_witness:
  "asset_table lpk_truncated_sample = Inr [row_a_png, row_x 5 48]
   \<and> asset_name row_a_png \<noteq> js ''__proto__''
   \<and> asset_name (row_x 5 48) \<noteq> js ''__proto__''
   \<and> length lpk_truncated_sample < asset_dataOffset (row_x 5 48) + asset_size (row_x 5 48)
   \<and> (\<exists>res :: unit lpk_result. snd (parseBinaryLPK lpk_truncated_sample) = Inr res
        \<and> manifest_entry (assets res) (js ''x'') [1, 2, 3]
        \<and> manifest_entry (assets res) (js ''a.PNG'') [0xAA, 0xBB])"
proof -
  have over: "length lpk_truncated_sample < asset_dataOffset (row_x 5 48) + asset_size (row_x 5 48)"
    by (simp add: row_x_def lpk_truncated_sample_def)
  have n: "asset_name row_a_png \<noteq> js ''__proto__''" "asset_name (row_x 5 48) \<noteq> js ''__proto__''"
    by (simp_all add: row_a_png_def row_x_def js_def)
  then have names: "\<forall>r' \<in> set [row_a_png, row_x 5 48]. asset_name r' \<noteq> js ''__proto__''"
    by simp
  have mem: "row_x 5 48 \<in> set [row_a_png, row_x 5 48]"
    by simp
  from parseBinaryLPK_keeps_truncated_row
    [OF asset_table_truncated_sample names mem over, where ?'j = unit]
  obtain res :: "unit lpk_result" where res: "snd (parseBinaryLPK lpk_truncated_sample) = Inr res"
    and own: "(\<forall>r' \<in> set [row_a_png, row_x 5 48]. asset_name r' = asset_name (row_x 5 48) \<longrightarrow> r' = row_x 5 48) \<longrightarrow>
           manifest_entry (assets res) (asset_name (row_x 5 48)) (drop (asset_dataOffset (row_x 5 48)) lpk_truncated_sample)"
    and others: "\<forall>r' \<in> set [row_a_png, row_x 5 48].
           asset_dataOffset r' + asset_size r' \<le> length lpk_truncated_sample
           \<and> (\<forall>r'' \<in> set [row_a_png, row_x 5 48]. asset_name r'' = asset_name r' \<longrightarrow> r'' = r') \<longrightarrow>
           manifest_entry (assets res) (asset_name r')
             (take (asset_size r') (drop (asset_dataOffset r') lpk_truncated_sample))
           \<and> length (take (asset_size r') (drop (asset_dataOffset r') lpk_truncated_sample)) = asset_size r'"
    by blast
  have "manifest_entry (assets res) (js ''x'') [1, 2, 3]"
    using own by (simp add: row_a_png_def row_x_def lpk_truncated_sample_def js_def)
  moreover have "manifest_entry (assets res) (js ''a.PNG'') [0xAA, 0xBB]"
    using others by (simp add: row_a_png_def row_x_def lpk_truncated_sample_def js_def)
  ultimately show ?thesis
    using asset_table_truncated_sample n over res by blast
qed

lemma parse_from_nomagic_sample:
  "(parse_from lpk_nomagic_sample 0 :: js_error + unit lpk_result) =
     Inr \<lparr>format = js ''binary'', version = Some 7,
          assets = \<lparr>models = None, textures = None,
                    data = Some \<lparr>own_keys = [(js ''x'', [0x0A, 0x0B])], prototype = None\<rparr>\<rparr>,
          metadata = None\<rparr>"
proof -
  have t: "read_header_table lpk_nomagic_sample 0 = Inr (7, [row_x 2 23])"
    by (simp add: lpk_nomagic_sample_def eval_defs row_x_def)
  have e: "extract_asset lpk_nomagic_sample no_assets (row_x 2 23) =
      Inr \<lparr>models = None, textures = None,
           data = Some \<lparr>own_keys = [(js ''x'', [0x0A, 0x0B])], prototype = None\<rparr>\<rparr>"
    by (simp add: extract_eval row_x_def lpk_nomagic_sample_def)
  show ?thesis
    by (simp add: parse_from_def t e)
qed

text \<open>
  Claim C9. For every buffer of at least four bytes whose first four bytes are not
  \<^verbatim>\<open>'LPK\0'\<close>, \<^verbatim>\<open>parseBinaryLPK\<close> logs the warning once and goes on with the cursor at
  offset 0: its outcome is that of the rest of the function run from offset 0, so the
  version is the little-endian word at offset 0 and the number of table rows the one
  at offset 4. A buffer with the magic tag runs the same rest of the function from
  offset 4, without the warning.
\<close>

theorem parseBinaryLPK_magic_mismatch:
  assumes len: "4 \<le> length buf" and mm: "take 4 buf \<noteq> [0x4C, 0x50, 0x4B, 0x00]"
  shows "(parseBinaryLPK buf :: string list \<times> (js_error + 'j lpk_result)) =
           ([magic_warning], parse_from buf 0)
     \<and> (\<forall>res :: 'j lpk_result. parse_from buf 0 = Inr res \<longrightarrow>
           version res = Some (le_nat (take 4 buf))
           \<and> (\<exists>rows. asset_table buf = Inr rows
                 \<and> length rows = le_nat (take 4 (drop 4 buf))
                 \<and> extract_assets buf no_assets rows = Inr (assets res)))
     \<and> (\<forall>buf'. take 4 buf' = [0x4C, 0x50, 0x4B, 0x00] \<longrightarrow>
           (parseBinaryLPK buf' :: string list \<times> (js_error + 'j lpk_result)) =
             ([], parse_from buf' 4))"
proof -
  note c = magic_cursor_mismatch [OF len mm]
  have first: "(parseBinaryLPK buf :: string list \<times> (js_error + 'j lpk_result)) =
      ([magic_warning], parse_from buf 0)"
    by (simp add: parseBinaryLPK_def c)
  have second: "version res = Some (le_nat (take 4 buf))
      \<and> (\<exists>rows. asset_table buf = Inr rows
            \<and> length rows = le_nat (take 4 (drop 4 buf))
            \<and> extract_assets buf no_assets rows = Inr (assets res))"
    if "parse_from buf 0 = Inr res" for res :: "'j lpk_result"
    using that
    by (auto simp: parse_from_def read_header_table_def asset_table_def c getUint32_def
        read_asset_table_length split: sum.splits if_splits)
  have third: "(parseBinaryLPK buf' :: string list \<times> (js_error + 'j lpk_result)) =
      ([], parse_from buf' 4)" if "take 4 buf' = [0x4C, 0x50, 0x4B, 0x00]" for buf'
    by (simp add: parseBinaryLPK_def magic_cursor_match [OF that])
  from first second third show ?thesis
    by blast
qed

theorem parseBinaryLPK_magic_mismatch_witness:
  "4 \<le> length lpk_nomagic_sample
   \<and> take 4 lpk_nomagic_sample \<noteq> [0x4C, 0x50, 0x4B, 0x00]
   \<and> (parseBinaryLPK lpk_nomagic_sample :: string list \<times> (js_error + unit lpk_result)) =
       ([magic_warning],
        Inr \<lparr>format = js ''binary'', version = Some 7,
             assets = \<lparr>models = None, textures = None,
                       data = Some \<lparr>own_keys = [(js ''x'', [0x0A, 0x0B])],
                                    prototype = None\<rparr>\<rparr>,
             metadata = None\<rparr>)
   \<and> le_nat (take 4 lpk_nomagic_sample) = 7
   \<and> le_nat (take 4 (drop 4 lpk_nomagic_sample)) = 1"
proof -
  have len: "4 \<le> length lpk_nomagic_sample"
    and mm: "take 4 lpk_nomagic_sample \<noteq> [0x4C, 0x50, 0x4B, 0x00]"
    by (simp_all add: lpk_nomagic_sample_def)
  have v: "le_nat (take 4 lpk_nomagic_sample) = 7" "le_nat (take 4 (drop 4 lpk_nomagic_sample)) = 1"
    by (simp_all add: lpk_nomagic_sample_def le_nat_def)
  from parseBinaryLPK_magic_mismatch [OF len mm, where ?'j = unit]
  have "(parseBinaryLPK lpk_nomagic_sample :: string list \<times> (js_error + unit lpk_result)) =
      ([magic_warning], parse_from lpk_nomagic_sample 0)"
    by blast
  with len mm v show ?thesis
    by (simp add: parse_from_nomagic_sample)
qed

section \<open>Properties of the local-file-header scan\<close>

lemma le_nat_2: "le_nat [a, b] = unat a + 256 * unat b"
  by (simp add: le_nat_def)

lemma le_nat_4: "le_nat [a, b, c, d] = unat a + 256 * unat b + 65536 * unat c + 16777216 * unat d"
  by (simp add: le_nat_def)

lemma drop_2_nth:
  assumes "p + 2 \<le> length z"
  shows "drop p z = z ! p # z ! (p + 1) # drop (p + 2) z"
proof -
  have "drop p z = z ! p # drop (Suc p) z"
    using assms by (simp add: Cons_nth_drop_Suc)
  also have "drop (Suc p) z = z ! Suc p # drop (Suc (Suc p)) z"
    using assms by (simp add: Cons_nth_drop_Suc)
  finally show ?thesis by simp
qed

lemma take_2_drop: "p + 2 \<le> length z \<Longrightarrow> take 2 (drop p z) = [z ! p, z ! (p + 1)]"
  by (simp add: drop_2_nth)

lemma take_4_drop:
  assumes "p + 4 \<le> length z"
  shows "take 4 (drop p z) = [z ! p, z ! (p + 1), z ! (p + 2), z ! (p + 3)]"
proof -
  have a: "drop p z = z ! p # z ! (p + 1) # drop (p + 2) z"
    using assms by (simp add: drop_2_nth)
  have b: "take 2 (drop (p + 2) z) = [z ! (p + 2), z ! (p + 2 + 1)]"
    using assms by (intro take_2_drop) simp
  have c: "p + 3 = Suc (Suc (Suc p))"
    by simp
  show ?thesis
    using b by (simp add: a add.assoc c)
qed

lemma readUInt16LE_in_range:
  "p + 2 \<le> length z \<Longrightarrow> readUInt16LE z p = Inr (u16_at z p)"
  by (simp add: readUInt16LE_def take_2_drop le_nat_2 u16_at_def)

lemma readUInt32LE_in_range:
  "p + 4 \<le> length z \<Longrightarrow> readUInt32LE z p = Inr (u32_at z p)"
  by (simp add: readUInt32LE_def take_4_drop le_nat_4 u32_at_def)

lemma scan_files_stop:
  "\<not> offset + 30 < length z \<Longrightarrow> scan_files z offset = Inr []"
  by (subst scan_files.simps) auto

lemma scan_files_skip:
  "offset + 30 < length z \<Longrightarrow> \<not> is_signature z offset \<Longrightarrow>
     scan_files z offset = scan_files z (offset + 1)"
  by (subst scan_files.simps) auto

lemma scan_files_match:
  assumes "offset + 30 < length z" and "is_signature z offset"
  shows "scan_files z offset =
     (case scan_files z (spec_entry_end z offset) of Inl e \<Rightarrow> Inl e
      | Inr files \<Rightarrow> Inr (spec_local_entry z offset # files))"
proof -
  from assms(1) have g: "int offset < int (length z) - 30"
    by linarith
  from assms(1) have r: "readUInt16LE z (offset + 26) = Inr (u16_at z (offset + 26))"
    "readUInt16LE z (offset + 28) = Inr (u16_at z (offset + 28))"
    "readUInt32LE z (offset + 18) = Inr (u32_at z (offset + 18))"
    "readUInt32LE z (offset + 22) = Inr (u32_at z (offset + 22))"
    by (simp_all add: readUInt16LE_in_range readUInt32LE_in_range)
  show ?thesis
    by (subst scan_files.simps)
      (simp add: g assms(2) r spec_entry_end_def spec_local_entry_def slice_buf_take_drop
        split: sum.split)
qed

lemma spec_entry_end_gt: "p < spec_entry_end z p"
  by (simp add: spec_entry_end_def)

lemma scan_files_total: "\<exists>files. scan_files z offset = Inr files"
proof (induction "length z - offset" arbitrary: offset rule: less_induct)
  case less
  show ?case
  proof (cases "offset + 30 < length z")
    case False
    then show ?thesis by (simp add: scan_files_stop)
  next
    case guard: True
    show ?thesis
    proof (cases "is_signature z offset")
      case False
      have "length z - (offset + 1) < length z - offset"
        using guard by simp
      from less [OF this] show ?thesis
        by (simp add: scan_files_skip [OF guard False])
    next
      case True
      have "length z - spec_entry_end z offset < length z - offset"
        using guard spec_entry_end_gt [of offset z] by linarith
      from less [OF this] show ?thesis
        by (auto simp: scan_files_match [OF guard True])
    qed
  qed
qed

lemma scan_files_entries:
  "scan_files z offset = Inr files \<Longrightarrow> e \<in> set files \<Longrightarrow>
     \<exists>p\<ge>offset. p + 30 < length z \<and> is_signature z p \<and> e = spec_local_entry z p"
proof (induction "length z - offset" arbitrary: offset files rule: less_induct)
  case less
  show ?case
  proof (cases "offset + 30 < length z")
    case False
    with less.prems show ?thesis by (simp add: scan_files_stop)
  next
    case guard: True
    show ?thesis
    proof (cases "is_signature z offset")
      case False
      have m: "length z - (offset + 1) < length z - offset"
        using guard by simp
      from less.prems(1) have "scan_files z (offset + 1) = Inr files"
        by (simp add: scan_files_skip [OF guard False])
      from less.hyps [OF m this less.prems(2)] show ?thesis
        by (auto intro: Suc_leD)
    next
      case True
      have m: "length z - spec_entry_end z offset < length z - offset"
        using guard spec_entry_end_gt [of offset z] by linarith
      from scan_files_total [of z "spec_entry_end z offset"]
      obtain rest where rest: "scan_files z (spec_entry_end z offset) = Inr rest"
        by blast
      with less.prems(1) have files: "files = spec_local_entry z offset # rest"
        by (simp add: scan_files_match [OF guard True])
      show ?thesis
      proof (cases "e = spec_local_entry z offset")
        case True
        with guard \<open>is_signature z offset\<close> show ?thesis by blast
      next
        case False
        with files less.prems(2) have "e \<in> set rest" by simp
        from less.hyps [OF m rest this]
        obtain p where "spec_entry_end z offset \<le> p" "p + 30 < length z" "is_signature z p"
          "e = spec_local_entry z p"
          by blast
        with spec_entry_end_gt [of offset z] show ?thesis
          by (intro exI [of _ p]) simp
      qed
    qed
  qed
qed


lemma filter_upt_skip:
  assumes "a \<le> b" and "\<And>q. a \<le> q \<Longrightarrow> q < b \<Longrightarrow> \<not> P q"
  shows "filter P [a ..< n] = filter P [b ..< n]"
proof (cases "b \<le> n")
  case True
  with assms(1) have "[a ..< n] = [a ..< b] @ [b ..< n]"
    by (metis le_Suc_ex upt_add_eq_append)
  moreover have "filter P [a ..< b] = []"
    using assms(2) by (auto simp: filter_empty_conv)
  ultimately show ?thesis by simp
next
  case False
  then have "filter P [a ..< n] = []"
    using assms(2) by (auto simp: filter_empty_conv)
  with False show ?thesis by simp
qed

lemma length_filter_upt_mono:
  assumes "a \<le> b"
  shows "length (filter P [b ..< n]) \<le> length (filter P [a ..< n])"
proof (cases "b \<le> n")
  case True
  with assms have "[a ..< n] = [a ..< b] @ [b ..< n]"
    by (metis le_Suc_ex upt_add_eq_append)
  then show ?thesis by simp
next
  case False
  then show ?thesis by simp
qed

lemma is_signature_in_range: "is_signature z p \<Longrightarrow> p + 3 < length z"
  by (simp add: is_signature_def u8_at_def split: if_splits)

lemma scan_files_exact:
  assumes "\<forall>p. offset \<le> p \<and> is_signature z p \<longrightarrow> p + 30 < length z"
    and "\<forall>p q. offset \<le> p \<and> p < q \<and> is_signature z p \<and> is_signature z q
           \<longrightarrow> spec_entry_end z p \<le> q"
  shows "scan_files z offset =
     Inr (map (spec_local_entry z) (filter (is_signature z) [offset ..< length z]))"
  using assms
proof (induction "length z - offset" arbitrary: offset rule: less_induct)
  case less
  show ?case
  proof (cases "offset + 30 < length z")
    case False
    have "filter (is_signature z) [offset ..< length z] = []"
      using False less.prems(1) by (fastforce simp: filter_empty_conv)
    with False show ?thesis by (simp add: scan_files_stop)
  next
    case guard: True
    then have lt: "offset < length z" by simp
    show ?thesis
    proof (cases "is_signature z offset")
      case False
      have m: "length z - (offset + 1) < length z - offset"
        using guard by simp
      have "scan_files z (offset + 1) =
          Inr (map (spec_local_entry z) (filter (is_signature z) [offset + 1 ..< length z]))"
        using less.prems by (intro less.hyps [OF m]) auto
      with False lt show ?thesis
        by (simp add: scan_files_skip [OF guard False] upt_conv_Cons)
    next
      case True
      let ?e = "spec_entry_end z offset"
      have m: "length z - ?e < length z - offset"
        using guard spec_entry_end_gt [of offset z] by linarith
      have gt: "offset < ?e"
        by (rule spec_entry_end_gt)
      have rest: "scan_files z ?e =
          Inr (map (spec_local_entry z) (filter (is_signature z) [?e ..< length z]))"
      proof (rule less.hyps [OF m])
        show "\<forall>p. ?e \<le> p \<and> is_signature z p \<longrightarrow> p + 30 < length z"
          using less.prems(1) gt by auto
        show "\<forall>p q. ?e \<le> p \<and> p < q \<and> is_signature z p \<and> is_signature z q
           \<longrightarrow> spec_entry_end z p \<le> q"
          using less.prems(2) gt by auto
      qed
      have none: "\<not> is_signature z q" if "offset + 1 \<le> q" "q < ?e" for q
      proof
        assume "is_signature z q"
        with less.prems(2) True that(1) have "?e \<le> q"
          by (simp add: Suc_le_eq)
        with that(2) show False by simp
      qed
      have "filter (is_signature z) [offset + 1 ..< length z]
          = filter (is_signature z) [?e ..< length z]"
        using gt none by (intro filter_upt_skip) auto
      with True lt have "filter (is_signature z) [offset ..< length z]
          = offset # filter (is_signature z) [?e ..< length z]"
        by (simp add: upt_conv_Cons)
      with rest show ?thesis
        by (simp add: scan_files_match [OF guard True])
    qed
  qed
qed

lemma scan_files_length_le:
  "\<exists>files. scan_files z offset = Inr files
     \<and> length files \<le> length (filter (is_signature z) [offset ..< length z])"
proof (induction "length z - offset" arbitrary: offset rule: less_induct)
  case less
  show ?case
  proof (cases "offset + 30 < length z")
    case False
    then show ?thesis by (simp add: scan_files_stop)
  next
    case guard: True
    then have lt: "offset < length z" by simp
    show ?thesis
    proof (cases "is_signature z offset")
      case False
      have m: "length z - (offset + 1) < length z - offset"
        using guard by simp
      from less [OF m] False lt show ?thesis
        by (simp add: scan_files_skip [OF guard False] upt_conv_Cons)
    next
      case True
      let ?e = "spec_entry_end z offset"
      have m: "length z - ?e < length z - offset"
        using guard spec_entry_end_gt [of offset z] by linarith
      from less [OF m] obtain rest where rest: "scan_files z ?e = Inr rest"
        and le: "length rest \<le> length (filter (is_signature z) [?e ..< length z])"
        by blast
      have "offset + 1 \<le> ?e"
        using spec_entry_end_gt [of offset z] by simp
      from length_filter_upt_mono [OF this, of "is_signature z" "length z"] le
      have "length rest \<le> length (filter (is_signature z) [offset + 1 ..< length z])"
        by simp
      with rest True lt show ?thesis
        by (simp add: scan_files_match [OF guard True] upt_conv_Cons)
    qed
  qed
qed

lemma file_offset_spec_local_entry_ge: "p + 30 \<le> file_offset (spec_local_entry z p)"
  by (simp add: spec_local_entry_def)

lemma scan_files_never_rescans:
  "scan_files z offset = Inr files \<Longrightarrow>
     sorted_wrt (\<lambda>e1 e2. file_offset e1 + compressedSize e1 + 30 \<le> file_offset e2) files"
proof (induction "length z - offset" arbitrary: offset files rule: less_induct)
  case less
  show ?case
  proof (cases "offset + 30 < length z")
    case False
    with less.prems show ?thesis by (simp add: scan_files_stop)
  next
    case guard: True
    show ?thesis
    proof (cases "is_signature z offset")
      case False
      have m: "length z - (offset + 1) < length z - offset"
        using guard by simp
      from less.prems have "scan_files z (offset + 1) = Inr files"
        by (simp add: scan_files_skip [OF guard False])
      from less.hyps [OF m this] show ?thesis .
    next
      case True
      let ?e = "spec_entry_end z offset"
      have m: "length z - ?e < length z - offset"
        using guard spec_entry_end_gt [of offset z] by linarith
      from scan_files_total [of z ?e] obtain rest where rest: "scan_files z ?e = Inr rest"
        by blast
      with less.prems have files: "files = spec_local_entry z offset # rest"
        by (simp add: scan_files_match [OF guard True])
      have e: "file_offset (spec_local_entry z offset) + compressedSize (spec_local_entry z offset) = ?e"
        by (simp add: spec_local_entry_def spec_entry_end_def)
      have "file_offset (spec_local_entry z offset) + compressedSize (spec_local_entry z offset) + 30
          \<le> file_offset x" if "x \<in> set rest" for x
      proof -
        from scan_files_entries [OF rest that]
        obtain p where "?e \<le> p" "x = spec_local_entry z p" by blast
        with file_offset_spec_local_entry_ge [of p z] e show ?thesis by simp
      qed
      with less.hyps [OF m rest] files show ?thesis
        by simp
    qed
  qed
qed

lemma set_signature_positions:
  "set (signature_positions z) = {p. is_signature z p}"
proof -
  have "p < length z" if "is_signature z p" for p
    using is_signature_in_range [OF that] by simp
  then show ?thesis
    by (auto simp: signature_positions_def)
qed

lemma extractZipData_drop: "extractZipData lpk = drop 8 lpk"
  by (simp add: extractZipData_def slice_from_def slice_buf_take_drop)

text \<open>
  Claim C5, amended. After the 8 header bytes are skipped, the scan returns a list of
  entries whose number never exceeds the number of occurrences of \<^verbatim>\<open>50 4B 03 04\<close> in the
  body. The cursor moves past each entry by
  \<open>30 + filenameLength + extraFieldLength + compressedSize\<close> and consumed bytes are never
  scanned again: the record of each later entry starts at or after the end of the
  payload of each earlier one. The number of entries equals the number of occurrences
  (and the entries are those of the occurrences, in order) whenever every occurrence
  has more than 30 bytes from its start to the end of the body and no occurrence lies
  inside the bytes consumed for an earlier one.
\<close>

theorem found_files_count:
  "(\<exists>files. found_files lpk = Inr files
      \<and> length files \<le> length (signature_positions (drop 8 lpk))
      \<and> sorted_wrt (\<lambda>e1 e2. file_offset e1 + compressedSize e1 + 30 \<le> file_offset e2) files)
   \<and> ((\<forall>p \<in> set (signature_positions (drop 8 lpk)). p + 30 < length (drop 8 lpk))
       \<and> (\<forall>p \<in> set (signature_positions (drop 8 lpk)).
            \<forall>q \<in> set (signature_positions (drop 8 lpk)).
              p < q \<longrightarrow> spec_entry_end (drop 8 lpk) p \<le> q)
      \<longrightarrow> (\<exists>files. found_files lpk = Inr files
            \<and> files = map (spec_local_entry (drop 8 lpk)) (signature_positions (drop 8 lpk))
            \<and> length files = length (signature_positions (drop 8 lpk))))"
proof -
  let ?z = "drop 8 lpk"
  have f: "found_files lpk = scan_files ?z 0"
    by (simp add: found_files_def extractZipData_drop)
  from scan_files_length_le [of ?z 0]
  obtain files where files: "scan_files ?z 0 = Inr files"
    and le: "length files \<le> length (signature_positions ?z)"
    by (auto simp: signature_positions_def)
  have first: "\<exists>files. found_files lpk = Inr files
      \<and> length files \<le> length (signature_positions ?z)
      \<and> sorted_wrt (\<lambda>e1 e2. file_offset e1 + compressedSize e1 + 30 \<le> file_offset e2) files"
    using files le scan_files_never_rescans [OF files] f by simp
  have second: "\<exists>files. found_files lpk = Inr files
            \<and> files = map (spec_local_entry ?z) (signature_positions ?z)
            \<and> length files = length (signature_positions ?z)"
    if h: "(\<forall>p \<in> set (signature_positions ?z). p + 30 < length ?z)
       \<and> (\<forall>p \<in> set (signature_positions ?z). \<forall>q \<in> set (signature_positions ?z).
              p < q \<longrightarrow> spec_entry_end ?z p \<le> q)"
  proof -
    have "scan_files ?z 0 =
        Inr (map (spec_local_entry ?z) (filter (is_signature ?z) [0 ..< length ?z]))"
      using h by (intro scan_files_exact) (auto simp: set_signature_positions)
    then show ?thesis
      by (simp add: f signature_positions_def)
  qed
  from first second show ?thesis
    by blast
qed

lemmas scan_eval = scan_files_match scan_files_skip scan_files_stop is_signature_def u8_at_def
  spec_entry_end_def spec_local_entry_def u16_at_def u32_at_def Buffer_toString_def
  utf8_code_points_def utf16_def js_def

lemma two_files_eval:
  "length (drop 8 lpk_two_files_sample) = 191"
  "is_signature (drop 8 lpk_two_files_sample) 0"
  "is_signature (drop 8 lpk_two_files_sample) 33"
  "spec_entry_end (drop 8 lpk_two_files_sample) 0 = 33"
  "spec_entry_end (drop 8 lpk_two_files_sample) 33 = 71"
  "spec_local_entry (drop 8 lpk_two_files_sample) 0 =
     \<lparr>file_name = js ''a'', compressedSize = 2, uncompressedSize = 2, file_offset = 31\<rparr>"
  "spec_local_entry (drop 8 lpk_two_files_sample) 33 =
     \<lparr>file_name = js ''b.png'', compressedSize = 3, uncompressedSize = 3, file_offset = 68\<rparr>"
  by (simp_all add: lpk_two_files_sample_def is_signature_def u8_at_def
      spec_entry_end_def spec_local_entry_def u16_at_def u32_at_def Buffer_toString_def
      utf8_code_points_def utf16_def js_def)

lemma two_files_positions:
  "signature_positions (drop 8 lpk_two_files_sample) = [0, 33]"
  by (simp add: signature_positions_def lpk_two_files_sample_def is_signature_def
      u8_at_def upt_rec_numeral)

lemma nested_positions:
  "signature_positions (drop 8 lpk_nested_signature_sample) = [0, 31]"
  by (simp add: signature_positions_def lpk_nested_signature_sample_def is_signature_def
      u8_at_def upt_rec_numeral)

lemma found_files_nested:
  "found_files lpk_nested_signature_sample =
     Inr [\<lparr>file_name = js ''a'', compressedSize = 4, uncompressedSize = 4, file_offset = 31\<rparr>]"
  by (simp add: found_files_def extractZipData_drop lpk_nested_signature_sample_def scan_eval)


theorem found_files_count_witness:
  "signature_positions (drop 8 lpk_two_files_sample) = [0, 33]
   \<and> (0::nat) + 30 < length (drop 8 lpk_two_files_sample)
   \<and> (33::nat) + 30 < length (drop 8 lpk_two_files_sample)
   \<and> spec_entry_end (drop 8 lpk_two_files_sample) 0 \<le> 33
   \<and> found_files lpk_two_files_sample =
       Inr [\<lparr>file_name = js ''a'', compressedSize = 2, uncompressedSize = 2, file_offset = 31\<rparr>,
            \<lparr>file_name = js ''b.png'', compressedSize = 3, uncompressedSize = 3,
             file_offset = 68\<rparr>]"
proof -
  let ?z = "drop 8 lpk_two_files_sample"
  have g: "(0::nat) + 30 < length ?z" "(33::nat) + 30 < length ?z"
    by (simp_all only: two_files_eval)
  have e: "spec_entry_end ?z 0 \<le> 33"
    by (simp only: two_files_eval)
  have h: "(\<forall>p \<in> set (signature_positions ?z). p + 30 < length ?z)
       \<and> (\<forall>p \<in> set (signature_positions ?z). \<forall>q \<in> set (signature_positions ?z).
              p < q \<longrightarrow> spec_entry_end ?z p \<le> q)"
    using g e by (simp add: two_files_positions)
  with found_files_count [of lpk_two_files_sample]
  have "found_files lpk_two_files_sample =
      Inr (map (spec_local_entry ?z) (signature_positions ?z))"
    by blast
  then have "found_files lpk_two_files_sample =
       Inr [\<lparr>file_name = js ''a'', compressedSize = 2, uncompressedSize = 2, file_offset = 31\<rparr>,
            \<lparr>file_name = js ''b.png'', compressedSize = 3, uncompressedSize = 3,
             file_offset = 68\<rparr>]"
    by (simp only: two_files_positions list.map two_files_eval)
  with two_files_positions g e show ?thesis
    by blast
qed

text \<open>
  Claim C5, as stated, fails. The sample is a valid archive behind the 8-byte header
  whose only file is stored and has the four bytes \<^verbatim>\<open>50 4B 03 04\<close> as content. The
  signature occurs twice in the body, at 0 and at 31; the scan skips the payload and
  returns one entry.
\<close>

theorem found_files_count_counterexample:
  "found_files lpk_nested_signature_sample =
     Inr [\<lparr>file_name = js ''a'', compressedSize = 4, uncompressedSize = 4, file_offset = 31\<rparr>]
   \<and> signature_positions (extractZipData lpk_nested_signature_sample) = [0, 31]
   \<and> length [\<lparr>file_name = js ''a'', compressedSize = 4, uncompressedSize = 4, file_offset = 31\<rparr>]
       \<noteq> length (signature_positions (extractZipData lpk_nested_signature_sample))"
  by (simp add: found_files_nested nested_positions extractZipData_drop)

text \<open>
  Claim C6, as stated, fails: the scan checks no archive signature at the start of the
  body and has no failure of its own. For an 8-byte header followed by a zero-length
  body it returns the empty list of entries.
\<close>

theorem found_files_header_only_counterexample:
  "extractZipData lpk_header_only_sample = []
   \<and> take 2 (extractZipData lpk_header_only_sample) \<noteq> [0x50, 0x4B]
   \<and> found_files lpk_header_only_sample = Inr []"
  by (simp add: found_files_def extractZipData_drop lpk_header_only_sample_def scan_files_stop)

text \<open>
  Claim C6, amended. For every input, whatever the bytes after the 8 header bytes
  begin with, the scan returns a list of entries and does not fail. The list is empty
  when the input has at most 38 bytes (a body of at most 30, the zero-length body
  included) and when the body holds no local-file-header signature.
\<close>

theorem found_files_never_fails:
  "(\<exists>files. found_files lpk = Inr files)
   \<and> (length lpk \<le> 38 \<longrightarrow> found_files lpk = Inr [])
   \<and> (signature_positions (drop 8 lpk) = [] \<longrightarrow> found_files lpk = Inr [])"
proof -
  have f: "found_files lpk = scan_files (drop 8 lpk) 0"
    by (simp add: found_files_def extractZipData_drop)
  have a: "\<exists>files. found_files lpk = Inr files"
    using scan_files_total [of "drop 8 lpk" 0] by (simp add: f)
  have b: "found_files lpk = Inr []" if "length lpk \<le> 38"
    using that by (simp add: f scan_files_stop)
  have c: "found_files lpk = Inr []" if "signature_positions (drop 8 lpk) = []"
    using that scan_files_length_le [of "drop 8 lpk" 0]
    by (auto simp: f signature_positions_def)
  from a b c show ?thesis
    by blast
qed

theorem found_files_never_fails_witness:
  "length lpk_header_only_sample \<le> 38
   \<and> signature_positions (drop 8 lpk_header_only_sample) = []
   \<and> found_files lpk_header_only_sample = Inr []"
proof -
  have l: "length lpk_header_only_sample \<le> 38"
    by (simp add: lpk_header_only_sample_def)
  have s: "signature_positions (drop 8 lpk_header_only_sample) = []"
    by (simp add: lpk_header_only_sample_def signature_positions_def)
  from found_files_never_fails [of lpk_header_only_sample] l
  have "found_files lpk_header_only_sample = Inr []"
    by blast
  with l s show ?thesis
    by blast
qed

section \<open>Properties of the categorisation\<close>

lemma spec_category_cases:
  "spec_category name = Model \<longleftrightarrow> extension name \<in> set model_exts"
  "spec_category name = Texture \<longleftrightarrow>
     extension name \<notin> set model_exts \<and> extension name \<in> set texture_exts"
  "spec_category name = Data \<longleftrightarrow>
     extension name \<notin> set model_exts \<and> extension name \<notin> set texture_exts
     \<and> extension name = js ''json''"
  "spec_category name = Unknown \<longleftrightarrow>
     extension name \<notin> set model_exts \<and> extension name \<notin> set texture_exts
     \<and> extension name \<noteq> js ''json''"
  by (simp_all add: spec_category_def model_exts_def texture_exts_def)






text \<open>
  The \<^verbatim>\<open>json\<close> branch of the ZIP-based parser never stores anything: whatever
  \<^verbatim>\<open>JSON.parse\<close> returns, the assignment into the missing \<^verbatim>\<open>result.assets.data\<close> throws,
  and the whole parse is lost.
\<close>

lemma zip_loop_json_throws:
  assumes "\<not> dir file" and "async_data file = Inr bs" and "spec_category name = Data"
  shows "\<exists>e. zip_loop JSON_parse ((name, file) # rest) acc = Inl e"
proof -
  from assms(3) have e: "extension name = js ''json''"
    by (simp add: spec_category_cases)
  have n: "js ''json'' \<notin> set model_exts" "js ''json'' \<notin> set texture_exts"
    by (simp_all add: model_exts_def texture_exts_def js_def)
  show ?thesis
    using assms(1,2) by (cases "JSON_parse bs") (simp_all add: e n)
qed

end
